theory Spec2Isabelle
  imports Complex_Main "HOL-Library.Word" "HOL-Library.Log_Nat"
begin

section \<open>DTIQCGui: intensity rescaling, preview geometry, exclusion list, saving\<close>

text \<open>
  A shallow embedding of \<^verbatim>\<open>src/DTIQCGui/src/dti_qc_gui.pyw\<close> (Python 2, numpy, PyQt4).

  Conventions of the embedding.
  \<^item> A floating-point number of the program (a Python float, a numpy float64) is an IEEE 754
    binary64 value: a rational that is representable, an infinity or NaN (\<open>npfloat\<close>). Every
    arithmetic operation of the source is the exact operation followed by the rounding to
    the nearest representable value, ties to even (\<open>b64\<close>). The sign of a zero is not kept.
  \<^item> A 4D volume \<^verbatim>\<open>data\<close> with axes (X, Y, Z, Direction) is its element type (float64 or
    an integer type) and the list of its direction channels, each channel
    \<^verbatim>\<open>data[:, :, :, dir_no]\<close> being the list of its samples in some fixed order (the code
    only flattens a channel and works sample by sample). The samples are finite numbers.
  \<^item> Python exceptions are values of \<open>exn\<close>; a function that may raise returns a sum.
  \<^item> What the code does to the outside (Qt signals, message boxes, the collaborator's
    \<^verbatim>\<open>saveData\<close>) is recorded in explicit logs.
\<close>

subsection \<open>Python and numpy values\<close>

datatype exn =
  ValueError | ZeroDivisionError | TypeError | SyntaxError | NameError
  | AttributeError | IOError | OverflowError | IndexError | SystemExit

text \<open>\<^verbatim>\<open>int(x)\<close> of a Python float: truncation towards zero.\<close>

definition py_int :: "rat \<Rightarrow> int" where
  "py_int q = (if 0 \<le> q then \<lfloor>q\<rfloor> else \<lceil>q\<rceil>)"

subsection \<open>IEEE 754 binary64 arithmetic\<close>

text \<open>Rounding to the nearest integer, a tie going to the even one.\<close>

definition round_half_even :: "rat \<Rightarrow> int" where
  "round_half_even q =
     (let f = \<lfloor>q\<rfloor>; r = q - of_int f
      in if r < 1 / 2 then f else if 1 / 2 < r then f + 1 else if even f then f else f + 1)"

text \<open>The binary exponent of a non-zero rational: \<open>2 powi (ilog2 x) \<le> \<bar>x\<bar> < 2 powi (ilog2 x + 1)\<close>.\<close>

definition ilog2 :: "rat \<Rightarrow> int" where
  "ilog2 x =
     (case quotient_of \<bar>x\<bar> of (p, q) \<Rightarrow>
        let k = bitlen p - bitlen q in if 2 powi k \<le> \<bar>x\<bar> then k else k - 1)"

text \<open>
  The binary64 value nearest to \<open>x\<close>, before the overflow check: 53 significant bits, the
  exponent of the last bit not below -1074 (below \<open>2 powi (- 1022)\<close> the values are the
  subnormal ones, multiples of \<open>2 powi (- 1074)\<close>).
\<close>

definition b64_value :: "rat \<Rightarrow> rat" where
  "b64_value x =
     (if x = 0 then 0
      else let e = max (ilog2 x) (- 1022) - 52
           in of_int (round_half_even (x / 2 powi e)) * 2 powi e)"

text \<open>Half the smallest subnormal value: the largest error of a rounding near zero.\<close>

definition b64_tiny :: rat where
  "b64_tiny = 2 powi (- 1075)"

text \<open>
  A numpy float64 value. numpy does not raise on a division by zero or an overflow: it
  yields an infinity, or NaN for \<^verbatim>\<open>0/0\<close> (and prints a RuntimeWarning).
\<close>

datatype npfloat = Finite rat | PosInf | NegInf | NaN

definition signed_inf :: "rat \<Rightarrow> npfloat" where
  "signed_inf s = (if 0 < s then PosInf else if s < 0 then NegInf else NaN)"

text \<open>
  The result of an operation whose exact value is \<open>x\<close>: the rounded value, or an infinity
  when the rounded value reaches \<open>2 powi 1024\<close>.
\<close>

definition b64 :: "rat \<Rightarrow> npfloat" where
  "b64 x =
     (let y = b64_value x
      in if y \<noteq> 0 \<and> 1024 \<le> ilog2 y then signed_inf x else Finite y)"

fun inf_sign :: "npfloat \<Rightarrow> rat" where
  "inf_sign (Finite x) = sgn x"
| "inf_sign PosInf = 1"
| "inf_sign NegInf = - 1"
| "inf_sign NaN = 0"

text \<open>The float64 product, quotient and comparison \<^verbatim>\<open><=\<close> (numpy's: no exception).\<close>

fun np_mul :: "npfloat \<Rightarrow> npfloat \<Rightarrow> npfloat" where
  "np_mul (Finite x) (Finite y) = b64 (x * y)"
| "np_mul NaN b = NaN"
| "np_mul a NaN = NaN"
| "np_mul a b = signed_inf (inf_sign a * inf_sign b)"

fun np_div :: "npfloat \<Rightarrow> npfloat \<Rightarrow> npfloat" where
  "np_div (Finite x) (Finite y) = (if y = 0 then signed_inf x else b64 (x / y))"
| "np_div NaN b = NaN"
| "np_div a NaN = NaN"
| "np_div (Finite x) b = Finite 0"
| "np_div a (Finite y) = signed_inf (inf_sign a * (if y < 0 then - 1 else 1))"
| "np_div a b = NaN"

fun np_le :: "npfloat \<Rightarrow> npfloat \<Rightarrow> bool" where
  "np_le (Finite x) (Finite y) = (x \<le> y)"
| "np_le NaN b = False"
| "np_le a NaN = False"
| "np_le NegInf b = True"
| "np_le a PosInf = True"
| "np_le a b = False"

text \<open>
  \<^verbatim>\<open>numpy.uint8(x)\<close> of a float64 array, as numpy does it on x86-64: the value is
  converted to a 32-bit signed integer by truncation and the low 8 bits are kept (the
  wrapping the comment at line 89 of the source speaks of); NaN, an infinity and a value
  whose integer part does not fit 32 bits convert to the integer \<open>- 2 ^ 31\<close>, whose low
  byte is 0.
\<close>

definition uint8 :: "npfloat \<Rightarrow> 8 word" where
  "uint8 v =
     (case v of
        Finite q \<Rightarrow>
          if - (2 ^ 31) \<le> py_int q \<and> py_int q < 2 ^ 31 then word_of_int (py_int q) else 0
      | PosInf \<Rightarrow> 0
      | NegInf \<Rightarrow> 0
      | NaN \<Rightarrow> 0)"

text \<open>
  \<^verbatim>\<open>numpy.percentile(a, q)\<close>, the default \<^verbatim>\<open>quantileFunc\<close>, in float64 arithmetic as
  numpy (1.22 and later, method \<^verbatim>\<open>linear\<close>) computes it on a float64 array: the quantile
  \<^verbatim>\<open>q/100\<close> must lie in [0, 1]; the virtual index is \<^verbatim>\<open>(n - 1) * quantile\<close>; at or
  beyond the last index the result is the largest sample; otherwise, with \<open>gamma\<close> the
  fractional part of the index, the result interpolates the two neighbours of the sorted
  samples, from below if \<open>gamma < 1/2\<close> and from above otherwise (\<^verbatim>\<open>_lerp\<close>). The
  quantile is checked first (ValueError); an empty array then fails at the indexing of
  its last element (IndexError).
\<close>

definition percentile :: "rat list \<Rightarrow> rat \<Rightarrow> exn + rat" where
  "percentile a q =
     (let quantile = b64_value (q / 100) in
      if quantile < 0 \<or> 1 < quantile then Inl ValueError
      else if a = [] then Inl IndexError
      else
        let n = length a;
            sorted_a = sort a;
            virtual_index = b64_value (of_nat (n - 1) * quantile)
        in if of_nat (n - 1) \<le> virtual_index then Inr (b64_value (sorted_a ! (n - 1)))
           else
             let previous_index = nat \<lfloor>virtual_index\<rfloor>;
                 gamma = virtual_index - of_nat previous_index;
                 previous = sorted_a ! previous_index;
                 next = sorted_a ! (previous_index + 1);
                 diff_b_a = b64_value (next - previous)
             in if gamma < 1 / 2
                then Inr (b64_value (previous + b64_value (diff_b_a * gamma)))
                else Inr (b64_value (next - b64_value (diff_b_a * b64_value (1 - gamma)))))"

subsection \<open>rescaleImageData\<close>

text \<open>
  The element type of the volume read from the NIfTI file, and the volume. Storing a
  float into an array of an integer type (line 91) drops its fractional part.
\<close>

datatype dtype = Float64 | Integer

record ndarray =
  dtype :: dtype
  channels :: "rat list list"

fun astype :: "dtype \<Rightarrow> rat \<Rightarrow> rat" where
  "astype Float64 v = v"
| "astype Integer v = of_int (py_int v)"

text \<open>The inner function \<^verbatim>\<open>cast_uint8(data, normConst) = uint8(255.*data/normConst)\<close>.\<close>

definition cast_uint8 :: "rat list \<Rightarrow> rat \<Rightarrow> 8 word list" where
  "cast_uint8 data normConst =
     map (\<lambda>x. uint8 (np_div (np_mul (Finite 255) (Finite x)) (Finite normConst))) data"

text \<open>
  What the loop does that can be seen from outside, in order: \<open>Emit n\<close> is
  \<^verbatim>\<open>signal.emit(n)\<close>, \<open>Stored d\<close> is the assignment
  \<^verbatim>\<open>output[:, :, :, d] = cast_uint8(cdata, maxValue)\<close> that ends the work on channel \<open>d\<close>.
\<close>

datatype event = Emit nat | Stored nat

text \<open>
  Lines 85 to 96: the work on one channel \<open>cdata\<close> of element type \<open>dt\<close>.
  \<open>quantileFunc = None\<close> is the mode that takes the channel's maximum (\<^verbatim>\<open>max()\<close> of an
  empty array raises ValueError); \<^verbatim>\<open>+ 0.0\<close> makes the maximum a float64.
\<close>

definition rescale_channel ::
  "dtype \<Rightarrow> (rat list \<Rightarrow> rat \<Rightarrow> exn + rat) option \<Rightarrow> rat \<Rightarrow> rat list \<Rightarrow> exn + 8 word list" where
  "rescale_channel dt quantileFunc quantile cdata =
     (case quantileFunc of
        Some f \<Rightarrow>
          (case f cdata quantile of
             Inl e \<Rightarrow> Inl e
           | Inr maxValue \<Rightarrow>
               Inr (cast_uint8 (map (\<lambda>x. if maxValue \<le> x then astype dt maxValue else x) cdata)
                      maxValue))
      | None \<Rightarrow>
          (if cdata = [] then Inl ValueError
           else Inr (cast_uint8 cdata (b64_value (Max (set cdata))))))"

text \<open>The loop \<^verbatim>\<open>for dir_no in range(data.shape[-1])\<close> over the remaining directions.\<close>

fun rescale_dirs ::
  "(rat list \<Rightarrow> rat \<Rightarrow> exn + rat) option \<Rightarrow> rat \<Rightarrow> bool \<Rightarrow> ndarray \<Rightarrow> nat list \<Rightarrow>
   event list \<Rightarrow> 8 word list list \<Rightarrow> event list \<times> (exn + 8 word list list)" where
  "rescale_dirs quantileFunc quantile signal data [] trace output = (trace, Inr output)"
| "rescale_dirs quantileFunc quantile signal data (dir_no # rest) trace output =
     (let trace1 = (if signal then trace @ [Emit (dir_no + 1)] else trace) in
      case rescale_channel (dtype data) quantileFunc quantile (channels data ! dir_no) of
        Inl e \<Rightarrow> (trace1, Inl e)
      | Inr channel \<Rightarrow>
          rescale_dirs quantileFunc quantile signal data rest
            (trace1 @ [Stored dir_no]) (output[dir_no := channel]))"

text \<open>
  \<^verbatim>\<open>rescaleImageData(data, quantile=99.5, fastest=False, quantileFunc=percentile, signal=None)\<close>.
  \<open>signal\<close> says whether a signal object was passed. The result is the trace of events
  and either the exception that ended the call or the rescaled volume.
\<close>

definition rescaleImageData ::
  "ndarray \<Rightarrow> rat \<Rightarrow> bool \<Rightarrow> (rat list \<Rightarrow> rat \<Rightarrow> exn + rat) option \<Rightarrow> bool \<Rightarrow>
   event list \<times> (exn + 8 word list list)" where
  "rescaleImageData data quantile fastest quantileFunc signal =
     (if fastest then ([], Inr (map (\<lambda>channel. cast_uint8 channel 4095) (channels data)))
      else rescale_dirs quantileFunc quantile signal data [0..<length (channels data)] []
             (map (\<lambda>channel. map (\<lambda>_. 0) channel) (channels data)))"

text \<open>
  The number of directions the loop completes: those before the first channel whose
  processing raises (all of them when none does).
\<close>

definition completed ::
  "ndarray \<Rightarrow> rat \<Rightarrow> (rat list \<Rightarrow> rat \<Rightarrow> exn + rat) option \<Rightarrow> nat" where
  "completed data quantile quantileFunc =
     length (takeWhile
       (\<lambda>dir_no. \<not> isl (rescale_channel (dtype data) quantileFunc quantile (channels data ! dir_no)))
       [0..<length (channels data)])"

subsection \<open>numpy2grayscaleqimage: the forward (render) transform\<close>

text \<open>\<^verbatim>\<open>int(x)\<close> of a float: NaN raises ValueError, an infinity OverflowError.\<close>

definition int_of_npfloat :: "npfloat \<Rightarrow> exn + int" where
  "int_of_npfloat v =
     (case v of Finite q \<Rightarrow> Inr (py_int q) | NaN \<Rightarrow> Inl ValueError
      | PosInf \<Rightarrow> Inl OverflowError | NegInf \<Rightarrow> Inl OverflowError)"

text \<open>
  Lines 149 to 158: the size the slice is scaled to. \<open>shape\<close> is \<^verbatim>\<open>data.shape\<close>, \<open>res\<close> the
  two in-plane voxel spacings, \<open>previewsize\<close> a \<^verbatim>\<open>QSize\<close> (width, height). The spacings
  come from the NIfTI header as numpy floats, and a numpy float times a Python int is a
  float64 under Python 2's numpy: the two extents, their quotient and its product with
  the side of the box are float64 operations, a zero divisor gives NaN or an infinity and
  the exception comes from \<^verbatim>\<open>int\<close>.
\<close>

definition verticalSize :: "nat \<times> nat \<Rightarrow> rat \<times> rat \<Rightarrow> npfloat" where
  "verticalSize shape res = np_mul (Finite (snd res)) (Finite (of_nat (snd shape)))"

definition horizontalSize :: "nat \<times> nat \<Rightarrow> rat \<times> rat \<Rightarrow> npfloat" where
  "horizontalSize shape res = np_mul (Finite (fst res)) (Finite (of_nat (fst shape)))"

definition rescaleSize :: "nat \<times> nat \<Rightarrow> rat \<times> rat \<Rightarrow> int \<times> int \<Rightarrow> exn + int \<times> int" where
  "rescaleSize shape res previewsize =
     (if np_le (horizontalSize shape res) (verticalSize shape res) then
        (case int_of_npfloat
                (np_mul (np_div (horizontalSize shape res) (verticalSize shape res))
                   (Finite (of_int (snd previewsize)))) of
           Inl e \<Rightarrow> Inl e
         | Inr w \<Rightarrow> Inr (w, snd previewsize))
      else
        (case int_of_npfloat
                (np_mul (np_div (verticalSize shape res) (horizontalSize shape res))
                   (Finite (of_int (fst previewsize)))) of
           Inl e \<Rightarrow> Inl e
         | Inr h \<Rightarrow> Inr (fst previewsize, h)))"

text \<open>
  A \<^verbatim>\<open>QImage\<close> of a slice, reduced to what the coordinate mapping needs: its size
  (width, height) and, for the pixel at \<open>(x, y)\<close>, the indices \<open>(a, b)\<close> of the slice
  element \<^verbatim>\<open>data[a, b]\<close> it shows (\<open>None\<close> outside the image, and for a pixel whose byte
  lies beyond the buffer). The null image has size (0, 0). The four Qt operations the
  source calls:
  \<^item> \<^verbatim>\<open>QImage(data.tostring('F'), data.shape[0], data.shape[1], Format_Indexed8)\<close>: the
    buffer holds the element \<^verbatim>\<open>data[a, b]\<close> at the byte \<open>a + b * shape[0]\<close> (column-major),
    and Qt reads the pixel \<open>(x, y)\<close> at the byte \<open>y * bytesPerLine + x\<close>, where
    \<open>bytesPerLine\<close> is the width rounded up to a multiple of 4 (scan lines are 32-bit
    aligned). When the width is a multiple of 4 the pixel \<open>(x, y)\<close> is \<^verbatim>\<open>data[x, y]\<close>;
  \<^item> \<^verbatim>\<open>scaled(size)\<close>: the null image if the image is null or \<open>size\<close> is empty; else the
    image of exactly that size, the pixel \<open>(x, y)\<close> showing the source pixel under its
    centre, column \<open>\<lfloor>(x + 1/2) * w0 / w\<rfloor>\<close> and row \<open>\<lfloor>(y + 1/2) * h0 / h\<rfloor>\<close>;
  \<^item> \<^verbatim>\<open>transformed(rot90)\<close> with \<^verbatim>\<open>rot90.rotate(90)\<close>: the matrix (0, 1, -1, 0) the
    comment at line 164 writes out, a source pixel \<open>(x, y)\<close> goes to \<open>(h - 1 - y, x)\<close>
    and the size becomes (height, width);
  \<^item> \<^verbatim>\<open>mirrored(horizontal, vertical)\<close>: columns, respectively rows, are reversed.
\<close>

record qimage =
  img_size :: "int \<times> int"
  img_pixel :: "int \<times> int \<Rightarrow> (int \<times> int) option"

definition null_image :: qimage where
  "null_image = \<lparr>img_size = (0, 0), img_pixel = (\<lambda>p. None)\<rparr>"

definition isNull :: "qimage \<Rightarrow> bool" where
  "isNull img = (fst (img_size img) \<le> 0 \<or> snd (img_size img) \<le> 0)"

definition QImage :: "nat \<times> nat \<Rightarrow> qimage" where
  "QImage shape =
     (let width = int (fst shape);
          height = int (snd shape);
          bytesPerLine = (width + 3) div 4 * 4
      in if width = 0 \<or> height = 0 then null_image
         else
           \<lparr>img_size = (width, height),
            img_pixel = (\<lambda>(x, y).
              if 0 \<le> x \<and> x < width \<and> 0 \<le> y \<and> y < height
                 \<and> y * bytesPerLine + x < width * height
              then Some ((y * bytesPerLine + x) mod width, (y * bytesPerLine + x) div width)
              else None)\<rparr>)"

definition scaled :: "int \<times> int \<Rightarrow> qimage \<Rightarrow> qimage" where
  "scaled size' img =
     (if isNull img \<or> fst size' \<le> 0 \<or> snd size' \<le> 0 then null_image
      else
        \<lparr>img_size = size',
         img_pixel = (\<lambda>(x, y).
           if 0 \<le> x \<and> x < fst size' \<and> 0 \<le> y \<and> y < snd size'
           then img_pixel img
                  ((2 * x + 1) * fst (img_size img) div (2 * fst size'),
                   (2 * y + 1) * snd (img_size img) div (2 * snd size'))
           else None)\<rparr>)"

definition transformed_rot90 :: "qimage \<Rightarrow> qimage" where
  "transformed_rot90 img =
     (if isNull img then null_image
      else
        \<lparr>img_size = (snd (img_size img), fst (img_size img)),
         img_pixel = (\<lambda>(x, y). img_pixel img (y, snd (img_size img) - 1 - x))\<rparr>)"

definition mirrored :: "bool \<Rightarrow> bool \<Rightarrow> qimage \<Rightarrow> qimage" where
  "mirrored horizontal vertical img =
     (if isNull img then null_image
      else
        \<lparr>img_size = img_size img,
         img_pixel = (\<lambda>(x, y). img_pixel img
                        (if horizontal then fst (img_size img) - 1 - x else x,
                         if vertical then snd (img_size img) - 1 - y else y))\<rparr>)"

text \<open>
  \<^verbatim>\<open>numpy2grayscaleqimage(data, res, previewsize, flipstate=..., rotate=...)\<close>, lines 147
  to 167: scale, then rotate if asked, then mirror.
\<close>

definition numpy2grayscaleqimage ::
  "nat \<times> nat \<Rightarrow> rat \<times> rat \<Rightarrow> int \<times> int \<Rightarrow> bool \<times> bool \<Rightarrow> bool \<Rightarrow> exn + qimage" where
  "numpy2grayscaleqimage shape res previewsize flipstate rotate90 =
     (case rescaleSize shape res previewsize of
        Inl e \<Rightarrow> Inl e
      | Inr size' \<Rightarrow>
          if rotate90 then
            Inr (mirrored (fst flipstate) (snd flipstate)
                   (transformed_rot90 (scaled size' (QImage shape))))
          else
            Inr (mirrored (fst flipstate) (snd flipstate) (scaled size' (QImage shape))))"

definition DEFAULT_PREVIEW_SIZE :: "int \<times> int" where
  "DEFAULT_PREVIEW_SIZE = (256, 256)"

subsection \<open>The state of the application\<close>

text \<open>
  A \<^verbatim>\<open>QSlider\<close>: \<^verbatim>\<open>setValue\<close> forces the value into [minimum, maximum].
\<close>

record slider =
  minimum :: int
  maximum :: int
  sl_value :: int

definition setValue :: "int \<Rightarrow> slider \<Rightarrow> slider" where
  "setValue v s = s\<lparr>sl_value := max (minimum s) (min (maximum s) v)\<rparr>"

text \<open>The widgets of \<^verbatim>\<open>self.ui\<close> that the modelled methods read or write.\<close>

record ui_form =
  horizontalSlider_x :: slider
  horizontalSlider_y :: slider
  horizontalSlider_z :: slider
  checkBox_preview_xy_vflip :: bool
  checkBox_preview_xy_hflip :: bool
  checkBox_preview_yz_vflip :: bool
  checkBox_preview_yz_hflip :: bool
  checkBox_preview_yz_rotate :: bool
  checkBox_preview_zx_vflip :: bool
  checkBox_preview_zx_hflip :: bool
  checkBox_preview_zx_rotate :: bool
  lineEdit_exclude :: string

text \<open>
  The collaborator's \<^verbatim>\<open>ProcessDTI\<close> object (its class is not part of the file), as far
  as the file uses it: the set \<^verbatim>\<open>EXCLUDED_DIRS\<close>, \<^verbatim>\<open>getSignalLength()\<close> and \<^verbatim>\<open>DIMS\<close>, the
  spatial dimensions (X, Y, Z) of the volume.
\<close>

record dti =
  EXCLUDED_DIRS :: "int set"
  SignalLength :: int
  DIMS :: "nat \<times> nat \<times> nat"

datatype message = Critical string string | Information string string

text \<open>
  \<^verbatim>\<open>self\<close>: the widgets, the dataset (\<open>None\<close> until one is loaded), the voxel spacings
  \<^verbatim>\<open>pixdim[0..3]\<close>, and the logs of what the methods did to the outside: the message
  boxes shown, the override cursors set and not yet restored, and the datasets handed to
  \<^verbatim>\<open>saveData\<close>.
\<close>

record gui =
  ui :: ui_form
  dti_obj :: "dti option"
  pixel_sizes :: "rat \<times> rat \<times> rat \<times> rat"
  messages :: "message list"
  override_cursors :: nat
  save_calls :: "dti list"

subsection \<open>The previews and the click on a preview\<close>

text \<open>
  \<^verbatim>\<open>__update_preview_z\<close>, \<^verbatim>\<open>__update_preview_x\<close>, \<^verbatim>\<open>__update_preview_y\<close> (lines 324 to
  360): the image drawn for a slicing axis. The slice of axis z is \<^verbatim>\<open>image_data[:, :, z, d]\<close>
  of shape (X, Y), that of axis x has shape (Y, Z), that of axis y has shape (X, Z). The
  slice is passed through \<^verbatim>\<open>squeeze()\<close>, which removes every axis of length 1: a slice
  with such an axis reaches \<^verbatim>\<open>numpy2grayscaleqimage\<close> with fewer than two axes, and
  \<^verbatim>\<open>data.shape[1]\<close> at line 147 raises IndexError.
\<close>

definition squeeze :: "nat \<times> nat \<Rightarrow> nat list" where
  "squeeze shape = filter (\<lambda>n. n \<noteq> 1) [fst shape, snd shape]"

definition preview_image ::
  "nat \<times> nat \<Rightarrow> rat \<times> rat \<Rightarrow> bool \<times> bool \<Rightarrow> bool \<Rightarrow> exn + qimage" where
  "preview_image shape res flipstate rotate90 =
     (if length (squeeze shape) < 2 then Inl IndexError
      else numpy2grayscaleqimage shape res DEFAULT_PREVIEW_SIZE flipstate rotate90)"

definition update_preview :: "gui \<Rightarrow> nat \<times> nat \<times> nat \<Rightarrow> string \<Rightarrow> exn + qimage" where
  "update_preview g shape slaxis =
     (case (shape, pixel_sizes g) of
        ((n0, n1, n2), (res0, res1, res2, res3)) \<Rightarrow>
          if slaxis = ''z'' then
            preview_image (n0, n1) (res1, res2)
              (checkBox_preview_xy_hflip (ui g), checkBox_preview_xy_vflip (ui g)) False
          else if slaxis = ''x'' then
            preview_image (n1, n2) (res2, res3)
              (checkBox_preview_yz_hflip (ui g), checkBox_preview_yz_vflip (ui g))
              (checkBox_preview_yz_rotate (ui g))
          else
            preview_image (n0, n2) (res1, res3)
              (checkBox_preview_zx_hflip (ui g), checkBox_preview_zx_vflip (ui g))
              (checkBox_preview_zx_rotate (ui g)))"

text \<open>
  The expression \<^verbatim>\<open>int(p/pm*n)\<close> of \<^verbatim>\<open>__preview_clicked\<close>: \<open>p\<close> an int (a coordinate of
  the click), \<open>pm\<close> the float \<^verbatim>\<open>pmX\<close> or \<^verbatim>\<open>pmY\<close> (a side of the pixmap, \<^verbatim>\<open>+ 0.\<close>), \<open>n\<close>
  a dimension of the volume. The quotient and the product are float operations; Python
  raises ZeroDivisionError on a zero \<open>pm\<close>.
\<close>

definition click_index :: "int \<Rightarrow> int \<Rightarrow> nat \<Rightarrow> exn + int" where
  "click_index p pm n =
     (if pm = 0 then Inl ZeroDivisionError
      else int_of_npfloat
             (np_mul (np_div (Finite (of_int p)) (Finite (of_int pm))) (Finite (of_nat n))))"

definition bind_exn :: "exn + 'a \<Rightarrow> ('a \<Rightarrow> exn + 'b) \<Rightarrow> exn + 'b" where
  "bind_exn r f = (case r of Inl e \<Rightarrow> Inl e | Inr v \<Rightarrow> f v)"

text \<open>
  \<^verbatim>\<open>__preview_clicked\<close>, lines 483 to 548. \<open>position\<close> is \<^verbatim>\<open>mouseclicked.EVENT.pos()\<close>,
  \<open>pixmap_size\<close> the (width, height) of the pixmap of that axis, \<open>pixmap_rect\<close> the
  (left, top) of the rectangle \<^verbatim>\<open>__get_previewpixmap_boundingbox\<close> returns.
\<close>

definition preview_clicked ::
  "gui \<Rightarrow> string \<Rightarrow> int \<times> int \<Rightarrow> int \<times> int \<Rightarrow> int \<times> int \<Rightarrow> exn + gui" where
  "preview_clicked g slaxis position pixmap_size pixmap_rect =
     (case dti_obj g of
        None \<Rightarrow> Inr g
      | Some d \<Rightarrow>
          if slaxis \<noteq> ''x'' \<and> slaxis \<noteq> ''y'' \<and> slaxis \<noteq> ''z'' then Inr g
          else
            let pmY = snd pixmap_size;
                pmX = fst pixmap_size;
                px = fst position;
                py = snd position;
                rect_left = fst pixmap_rect;
                rect_top = snd pixmap_rect;
                w = ui g
            in case DIMS d of (shape0, shape1, shape2) \<Rightarrow>
              if slaxis = ''z'' then
                bind_exn (click_index px pmX shape1) (\<lambda>x_val.
                bind_exn (click_index py pmY shape0) (\<lambda>y_val.
                  let y_val = (if checkBox_preview_xy_vflip w
                               then maximum (horizontalSlider_y w) - y_val else y_val);
                      x_val = (if checkBox_preview_xy_hflip w
                               then maximum (horizontalSlider_x w) - x_val else x_val)
                  in Inr (g\<lparr>ui := w\<lparr>horizontalSlider_x := setValue x_val (horizontalSlider_x w),
                                    horizontalSlider_y := setValue y_val (horizontalSlider_y w)\<rparr>\<rparr>)))
              else if slaxis = ''x'' then
                bind_exn (if checkBox_preview_yz_rotate w
                          then click_index py pmY shape1
                          else click_index px pmX shape1) (\<lambda>y_val.
                bind_exn (if checkBox_preview_yz_rotate w
                          then bind_exn (click_index (px - rect_left) pmX shape2)
                                 (\<lambda>v. Inr (maximum (horizontalSlider_z w) - v))
                          else click_index (py - rect_top) pmY shape2) (\<lambda>z_val.
                  let z_val = (if checkBox_preview_yz_vflip w
                               then maximum (horizontalSlider_z w) - z_val else z_val);
                      y_val = (if checkBox_preview_yz_hflip w
                               then maximum (horizontalSlider_y w) - y_val else y_val)
                  in Inr (g\<lparr>ui := w\<lparr>horizontalSlider_z := setValue z_val (horizontalSlider_z w),
                                    horizontalSlider_y := setValue y_val (horizontalSlider_y w)\<rparr>\<rparr>)))
              else
                bind_exn (click_index (py - rect_top) pmY shape2) (\<lambda>z_val.
                bind_exn (click_index px pmX shape0) (\<lambda>x_val.
                  let z_val = (if checkBox_preview_zx_vflip w
                               then maximum (horizontalSlider_z w) - z_val else z_val);
                      x_val = (if checkBox_preview_zx_hflip w
                               then maximum (horizontalSlider_x w) - x_val else x_val);
                      tmp = x_val;
                      x_val = (if checkBox_preview_zx_rotate w then z_val else x_val);
                      z_val = (if checkBox_preview_zx_rotate w then tmp else z_val)
                  in Inr (g\<lparr>ui := w\<lparr>horizontalSlider_z := setValue z_val (horizontalSlider_z w),
                                    horizontalSlider_x := setValue x_val (horizontalSlider_x w)\<rparr>\<rparr>))))"

text \<open>
  The state \<^verbatim>\<open>load_data\<close> leaves when the dataset is accepted (lines 659 to 672, with
  \<^verbatim>\<open>__dataset_ok\<close> and \<^verbatim>\<open>__update_preview_section\<close>): the exclusion set is cleared, each
  position slider gets the maximum \<^verbatim>\<open>sh[k] - 1\<close> and the value \<^verbatim>\<open>sh[k]/2\<close>, and the
  exclusion text shows the empty list. The check boxes are as Qt creates them (unchecked)
  and the sliders' minimum is Qt's 0.
\<close>

definition loaded :: "nat \<times> nat \<times> nat \<Rightarrow> int \<Rightarrow> rat \<times> rat \<times> rat \<times> rat \<Rightarrow> gui" where
  "loaded shape ndirs pixdim =
     (case shape of (n0, n1, n2) \<Rightarrow>
        \<lparr>ui = \<lparr>horizontalSlider_x = \<lparr>minimum = 0, maximum = int n0 - 1, sl_value = int n0 div 2\<rparr>,
               horizontalSlider_y = \<lparr>minimum = 0, maximum = int n1 - 1, sl_value = int n1 div 2\<rparr>,
               horizontalSlider_z = \<lparr>minimum = 0, maximum = int n2 - 1, sl_value = int n2 div 2\<rparr>,
               checkBox_preview_xy_vflip = False, checkBox_preview_xy_hflip = False,
               checkBox_preview_yz_vflip = False, checkBox_preview_yz_hflip = False,
               checkBox_preview_yz_rotate = False,
               checkBox_preview_zx_vflip = False, checkBox_preview_zx_hflip = False,
               checkBox_preview_zx_rotate = False,
               lineEdit_exclude = ''[]''\<rparr>,
         dti_obj = Some \<lparr>EXCLUDED_DIRS = {}, SignalLength = ndirs, DIMS = shape\<rparr>,
         pixel_sizes = pixdim,
         messages = [], override_cursors = 0, save_calls = []\<rparr>)"

text \<open>
  Reading a result: the size of the image drawn, the slice element an image shows at a
  pixel, and the positions (x, y, z) of the three sliders after a click.
\<close>

definition pixmap_size :: "exn + qimage \<Rightarrow> (int \<times> int) option" where
  "pixmap_size r = (case r of Inl e \<Rightarrow> None | Inr img \<Rightarrow> Some (img_size img))"

definition shown_at :: "exn + qimage \<Rightarrow> int \<times> int \<Rightarrow> (int \<times> int) option" where
  "shown_at r p = (case r of Inl e \<Rightarrow> None | Inr img \<Rightarrow> img_pixel img p)"

definition slider_values :: "exn + gui \<Rightarrow> (int \<times> int \<times> int) option" where
  "slider_values r =
     (case r of
        Inl e \<Rightarrow> None
      | Inr g \<Rightarrow> Some (sl_value (horizontalSlider_x (ui g)),
                       sl_value (horizontalSlider_y (ui g)),
                       sl_value (horizontalSlider_z (ui g))))"

subsection \<open>The exclusion list\<close>

text \<open>Python's \<^verbatim>\<open>str\<close> of an int and of a list of ints, and \<^verbatim>\<open>sep.join\<close>.\<close>

function str_nat :: "nat \<Rightarrow> string" where
  "str_nat n =
     (if n < 10 then [''0123456789'' ! n]
      else str_nat (n div 10) @ [''0123456789'' ! (n mod 10)])"
  by pat_completeness auto
termination
  by (relation "measure (\<lambda>n. n)") auto

definition str_int :: "int \<Rightarrow> string" where
  "str_int i = (if i < 0 then ''-'' @ str_nat (nat (- i)) else str_nat (nat i))"

fun join :: "string \<Rightarrow> string list \<Rightarrow> string" where
  "join sep [] = []"
| "join sep [x] = x"
| "join sep (x # y # ys) = x @ sep @ join sep (y # ys)"

definition str_list :: "int list \<Rightarrow> string" where
  "str_list xs = ''['' @ join '', '' (map str_int xs) @ '']''"

text \<open>
  \<^verbatim>\<open>set_excluded\<close> (line 571) writes the text of the exclusion field, as the user's typing
  does; \<^verbatim>\<open>__update_excluded_list\<close> (lines 400 to 404) shows the sorted exclusion set.
\<close>

definition set_excluded :: "string \<Rightarrow> gui \<Rightarrow> gui" where
  "set_excluded txt g = g\<lparr>ui := (ui g)\<lparr>lineEdit_exclude := txt\<rparr>\<rparr>"

definition update_excluded_list :: "gui \<Rightarrow> gui" where
  "update_excluded_list g =
     (case dti_obj g of
        Some d \<Rightarrow> set_excluded (str_list (sorted_list_of_set (EXCLUDED_DIRS d))) g
      | None \<Rightarrow> set_excluded ''[]'' g)"

text \<open>
  The value of \<^verbatim>\<open>set(eval(txt))\<close> is given by the Python interpreter, not by the file: the
  model takes it as a parameter \<open>eval_set\<close>, from the text to either the exception raised
  or the members of the set in the order the loop meets them. A member is an instance of
  \<^verbatim>\<open>int\<close> or it is not. (Python counts \<^verbatim>\<open>True\<close> and \<^verbatim>\<open>False\<close> as ints; the model has no
  such members, the exclusion set being a set of integers.)
\<close>

datatype pyobj = PyInt int | PyNonInt

fun ints_of :: "pyobj list \<Rightarrow> int list" where
  "ints_of [] = []"
| "ints_of (PyInt i # rest) = i # ints_of rest"
| "ints_of (PyNonInt # rest) = ints_of rest"

text \<open>
  The loop of lines 383 to 390 over the remaining members: \<open>None\<close> when a member is not
  an int (the method then reports and returns), else the set \<^verbatim>\<open>rem\<close>.
\<close>

fun out_of_range :: "pyobj list \<Rightarrow> int \<Rightarrow> int set \<Rightarrow> int set option" where
  "out_of_range [] lastdir rem = Some rem"
| "out_of_range (PyNonInt # rest) lastdir rem = None"
| "out_of_range (PyInt i # rest) lastdir rem =
     out_of_range rest lastdir (if i < 0 \<or> lastdir < i then insert i rem else rem)"

definition ERR_MSG :: string where
  "ERR_MSG = ''The text entered must be in the [i, j, ...] format where i, j are integers, indicating which volume to exclude.''"

text \<open>
  \<^verbatim>\<open>__validate_text_excluded\<close>, lines 367 to 393. The result is the exception that leaves
  the method, if any, and the new state.
\<close>

definition validate_text_excluded :: "(string \<Rightarrow> exn + pyobj list) \<Rightarrow> gui \<Rightarrow> exn option \<times> gui" where
  "validate_text_excluded eval_set g =
     (case dti_obj g of
        None \<Rightarrow> (None, g)
      | Some d \<Rightarrow>
          let lastdir = SignalLength d - 1;
              txt = lineEdit_exclude (ui g);
              reported = update_excluded_list
                           (g\<lparr>messages := messages g @ [Critical ''Editing Error'' ERR_MSG]\<rparr>)
          in case eval_set txt of
               Inl e \<Rightarrow>
                 if e = SyntaxError then (None, reported)
                 else if e = NameError then (None, reported)
                 else (Some e, g)
             | Inr exc \<Rightarrow>
                 (case out_of_range exc lastdir {} of
                    None \<Rightarrow> (None, reported)
                  | Some rem \<Rightarrow>
                      (None, update_excluded_list
                               (g\<lparr>dti_obj := Some (d\<lparr>EXCLUDED_DIRS := set (ints_of exc) - rem\<rparr>)\<rparr>))))"

text \<open>
  What Python 2 gives for \<^verbatim>\<open>set(eval(txt))\<close> on the texts used as examples below:
  a list display evaluates to its members, \<^verbatim>\<open>not a list\<close> is a syntax error, \<^verbatim>\<open>5\<close>
  evaluates to an int that \<^verbatim>\<open>set\<close> cannot iterate (TypeError). Other texts are not
  described (the value given for them is not used).
\<close>

definition py_eval_examples :: "string \<Rightarrow> exn + pyobj list" where
  "py_eval_examples txt =
     (if txt = ''[1, 2, 999]'' then Inr [PyInt 1, PyInt 2, PyInt 999]
      else if txt = ''[]'' then Inr []
      else if txt = ''5'' then Inl TypeError
      else Inl SyntaxError)"

subsection \<open>Saving\<close>

text \<open>
  \<^verbatim>\<open>save_data\<close>, lines 682 to 696. \<open>saveData\<close> is the collaborator's method: it raises or
  returns the names of the files it wrote. The bare \<^verbatim>\<open>except:\<close> catches every exception.
  The text of the error message is built from \<^verbatim>\<open>self.parameter_box.dataset.dti_nifti_name\<close>;
  the file assigns no attribute \<^verbatim>\<open>parameter_box\<close> (the class and its constructor set
  \<^verbatim>\<open>dti_obj\<close>, \<^verbatim>\<open>nifti_data\<close>, \<^verbatim>\<open>image_data\<close>, \<^verbatim>\<open>preview_data\<close>, \<^verbatim>\<open>pixel_sizes\<close>, \<^verbatim>\<open>ui\<close>,
  \<^verbatim>\<open>statusbar\<close>, \<^verbatim>\<open>rescaleProgressBar\<close>, \<^verbatim>\<open>settings\<close>, \<^verbatim>\<open>keyboard_exclude\<close> and
  \<^verbatim>\<open>rescaleSignal\<close>), so evaluating the argument raises AttributeError before
  \<^verbatim>\<open>QMessageBox.critical\<close> is called.
\<close>

definition save_data :: "(dti \<Rightarrow> exn + string list) \<Rightarrow> gui \<Rightarrow> exn option \<times> gui" where
  "save_data saveData g =
     (case dti_obj g of
        None \<Rightarrow> (None, g)
      | Some d \<Rightarrow>
          if EXCLUDED_DIRS d = {} then (None, g)
          else
            let g1 = g\<lparr>override_cursors := override_cursors g + 1,
                       save_calls := save_calls g @ [d]\<rparr>;
                result = saveData d;
                g2 = g1\<lparr>override_cursors := override_cursors g1 - 1\<rparr>
            in case result of
                 Inl e \<Rightarrow> (Some AttributeError, g2)
               | Inr saved_files \<Rightarrow>
                   (None, g2\<lparr>messages := messages g2
                               @ [Information ''SAVE OK'' (''File saved: '' @ join '' '' saved_files)]\<rparr>))"

section \<open>Properties\<close>

subsection \<open>Helper lemmas: the rounding to binary64\<close>

lemma round_half_even_error: "\<bar>of_int (round_half_even q) - q\<bar> \<le> 1 / 2"
proof -
  define r where "r = q - of_int \<lfloor>q\<rfloor>"
  have r: "0 \<le> r" "r < 1" unfolding r_def by linarith+
  consider "r < 1 / 2" | "1 / 2 < r" | "r = 1 / 2" by linarith
  then show ?thesis
  proof cases
    case 1
    then have "round_half_even q = \<lfloor>q\<rfloor>"
      by (simp add: round_half_even_def Let_def r_def)
    moreover have "\<bar>of_int \<lfloor>q\<rfloor> - q\<bar> \<le> 1 / 2" using 1 r unfolding r_def by linarith
    ultimately show ?thesis by simp
  next
    case 2
    then have "round_half_even q = \<lfloor>q\<rfloor> + 1"
      by (simp add: round_half_even_def Let_def r_def)
    moreover have "\<bar>of_int (\<lfloor>q\<rfloor> + 1) - q\<bar> \<le> 1 / 2" using 2 r unfolding r_def by (simp | linarith)+
    ultimately show ?thesis by simp
  next
    case 3
    then have "round_half_even q = \<lfloor>q\<rfloor> \<or> round_half_even q = \<lfloor>q\<rfloor> + 1"
      by (simp add: round_half_even_def Let_def r_def)
    moreover have "\<bar>of_int \<lfloor>q\<rfloor> - q\<bar> \<le> 1 / 2" using 3 unfolding r_def by linarith
    moreover have "\<bar>of_int (\<lfloor>q\<rfloor> + 1) - q\<bar> \<le> 1 / 2" using 3 unfolding r_def by (simp | linarith)+
    ultimately show ?thesis by auto
  qed
qed

lemma round_half_even_of_int [simp]: "round_half_even (of_int n) = n"
  by (simp add: round_half_even_def)

lemma round_half_even_nonneg: "0 \<le> q \<Longrightarrow> 0 \<le> round_half_even q"
  unfolding round_half_even_def Let_def by auto

lemma two_powi_pos [simp]: "0 < (2::rat) powi k"
  by (simp add: zero_less_power_int)

lemma two_powi_nat: "0 \<le> k \<Longrightarrow> (2::rat) powi k = 2 ^ nat k"
  by (simp add: power_int_def)

lemma bitlen_powi_bounds:
  assumes "0 < p"
  shows "(2::rat) powi (bitlen p - 1) \<le> of_int p" and "of_int p < (2::rat) powi (bitlen p)"
proof -
  from bitlen_bounds [OF assms]
  have lo: "2 ^ nat (bitlen p - 1) \<le> p" and hi: "p < 2 ^ nat (bitlen p)" by simp_all
  from assms have b1: "1 \<le> bitlen p" by (auto simp: bitlen_alt_def)
  have "(2::rat) powi (bitlen p - 1) = 2 ^ nat (bitlen p - 1)"
    using b1 by (simp add: two_powi_nat)
  also have "\<dots> = of_int (2 ^ nat (bitlen p - 1))" by simp
  also have "\<dots> \<le> of_int p" using lo by (simp only: of_int_le_iff)
  finally show "(2::rat) powi (bitlen p - 1) \<le> of_int p" .
  have "(of_int p :: rat) < of_int (2 ^ nat (bitlen p))" using hi by (simp only: of_int_less_iff)
  also have "\<dots> = 2 ^ nat (bitlen p)" by simp
  also have "\<dots> = (2::rat) powi (bitlen p)" using b1 by (simp add: two_powi_nat)
  finally show "of_int p < (2::rat) powi (bitlen p)" .
qed

lemma ilog2_bounds:
  assumes "x \<noteq> 0"
  shows "2 powi (ilog2 x) \<le> \<bar>x\<bar>" and "\<bar>x\<bar> < 2 powi (ilog2 x + 1)"
proof -
  obtain p q where pq: "quotient_of \<bar>x\<bar> = (p, q)" by (cases "quotient_of \<bar>x\<bar>")
  then have q: "0 < q" by (rule quotient_of_denom_pos)
  have x: "\<bar>x\<bar> = of_int p / of_int q" using pq by (rule quotient_of_div)
  have "0 < \<bar>x\<bar>" using assms by simp
  then have p: "0 < p" using q unfolding x by (simp add: zero_less_divide_iff)
  define k where "k = bitlen p - bitlen q"
  note bp = bitlen_powi_bounds [OF p] and bq = bitlen_powi_bounds [OF q]
  have qpos: "(0::rat) < of_int q" using q by simp
  have upper: "\<bar>x\<bar> < 2 powi (k + 1)"
  proof -
    have "of_int p < (2::rat) powi (bitlen p)" by (rule bp(2))
    also have "\<dots> = 2 powi (k + 1) * 2 powi (bitlen q - 1)"
      by (simp add: k_def power_int_add [symmetric])
    also have "\<dots> \<le> 2 powi (k + 1) * of_int q"
      using bq(1) by (simp add: mult_left_mono)
    finally show ?thesis unfolding x using qpos by (simp add: divide_less_eq)
  qed
  have lower: "2 powi (k - 1) \<le> \<bar>x\<bar>"
  proof -
    have "(2::rat) powi (k - 1) * of_int q \<le> 2 powi (k - 1) * 2 powi (bitlen q)"
      using bq(2) by (simp add: mult_left_mono)
    also have "\<dots> = 2 powi (bitlen p - 1)"
      by (simp add: k_def power_int_add [symmetric])
    also have "\<dots> \<le> of_int p" by (rule bp(1))
    finally show ?thesis unfolding x using qpos by (simp add: le_divide_eq)
  qed
  have il: "ilog2 x = (if 2 powi k \<le> \<bar>x\<bar> then k else k - 1)"
    by (simp add: ilog2_def pq k_def Let_def)
  show "2 powi (ilog2 x) \<le> \<bar>x\<bar>" using lower by (simp add: il)
  show "\<bar>x\<bar> < 2 powi (ilog2 x + 1)" using upper by (auto simp: il)
qed

lemma b64_value_error_exp:
  assumes "x \<noteq> 0"
  shows "\<bar>b64_value x - x\<bar> \<le> 2 powi (max (ilog2 x) (- 1022) - 52) / 2"
proof -
  define e where "e = max (ilog2 x) (- 1022) - 52"
  have v: "b64_value x = of_int (round_half_even (x / 2 powi e)) * 2 powi e"
    using assms by (simp add: b64_value_def e_def Let_def)
  have "b64_value x - x = (of_int (round_half_even (x / 2 powi e)) - x / 2 powi e) * 2 powi e"
    unfolding v by (simp add: algebra_simps)
  then have "\<bar>b64_value x - x\<bar> = \<bar>of_int (round_half_even (x / 2 powi e)) - x / 2 powi e\<bar> * 2 powi e"
    by (simp add: abs_mult)
  also have "\<dots> \<le> 1 / 2 * 2 powi e"
    by (rule mult_right_mono [OF round_half_even_error]) simp
  finally show ?thesis by (simp add: e_def)
qed

text \<open>The error of one rounding: relative \<open>2 ^ - 53\<close>, or half the smallest subnormal value.\<close>

lemma b64_value_error:
  "\<bar>b64_value x - x\<bar> \<le> \<bar>x\<bar> / 2 ^ 53 + b64_tiny"
proof (cases "x = 0")
  case True
  then show ?thesis by (simp add: b64_value_def b64_tiny_def less_imp_le)
next
  case False
  note err = b64_value_error_exp [OF False]
  have tiny: "0 \<le> b64_tiny" by (simp add: b64_tiny_def less_imp_le)
  show ?thesis
  proof (cases "- 1022 \<le> ilog2 x")
    case True
    then have "max (ilog2 x) (- 1022) - 52 = ilog2 x - 52" by simp
    then have "(2::rat) powi (max (ilog2 x) (- 1022) - 52) = 2 powi (ilog2 x) / 2 powi 52"
      by (simp add: power_int_diff)
    also have "\<dots> \<le> \<bar>x\<bar> / 2 powi 52"
      using ilog2_bounds(1) [OF False] by (simp add: divide_right_mono)
    finally have "(2::rat) powi (max (ilog2 x) (- 1022) - 52) / 2 \<le> \<bar>x\<bar> / 2 powi 52 / 2"
      by (simp add: divide_right_mono)
    also have "\<dots> = \<bar>x\<bar> / 2 ^ 53" by simp
    finally show ?thesis using err tiny by linarith
  next
    case False
    then have e: "max (ilog2 x) (- 1022) - 52 = - 1074" by simp
    have "(2::rat) powi (- 1075 + 1) = 2 powi (- 1075) * 2"
      by (rule power_int_add_1) simp
    then have "(2::rat) powi (- 1074) / 2 = b64_tiny"
      by (simp only: b64_tiny_def) simp
    with err have "\<bar>b64_value x - x\<bar> \<le> b64_tiny" by (simp only: e)
    moreover have "0 \<le> \<bar>x\<bar> / 2 ^ 53" by simp
    ultimately show ?thesis by linarith
  qed
qed

lemma b64_value_nonneg: "0 \<le> x \<Longrightarrow> 0 \<le> b64_value x"
  by (simp add: b64_value_def Let_def round_half_even_nonneg)

text \<open>An integer below \<open>2 ^ 53\<close> in absolute value is representable.\<close>

lemma b64_value_of_int:
  assumes "\<bar>n\<bar> < 2 ^ 53"
  shows "b64_value (of_int n) = of_int n"
proof (cases "n = 0")
  case True
  then show ?thesis by (simp add: b64_value_def)
next
  case False
  let ?x = "of_int n :: rat"
  have x0: "?x \<noteq> 0" using False by simp
  have ax: "\<bar>?x\<bar> = of_int \<bar>n\<bar>" by simp
  have "1 \<le> \<bar>n\<bar>" using False by simp
  then have "1 \<le> \<bar>?x\<bar>" unfolding ax by (simp only: of_int_1_le_iff)
  with ilog2_bounds(2) [OF x0] have "(2::rat) powi 0 < 2 powi (ilog2 ?x + 1)" by simp
  then have lo: "0 \<le> ilog2 ?x"
    using power_int_le_imp_less_exp [of "2::rat" 0 "ilog2 ?x + 1"]
    by (cases "0 \<le> ilog2 ?x + 1") (auto simp: not_le dest: power_int_strict_increasing [of _ _ "2::rat"])
  have "\<bar>?x\<bar> < 2 ^ 53" using assms unfolding ax by (metis of_int_less_iff of_int_numeral of_int_power)
  with ilog2_bounds(1) [OF x0] have "(2::rat) powi (ilog2 ?x) < 2 powi 53" by simp
  then have hi: "ilog2 ?x < 53"
    using power_int_le_imp_less_exp [of "2::rat" "ilog2 ?x" 53] by simp
  define j where "j = nat (52 - ilog2 ?x)"
  have e: "max (ilog2 ?x) (- 1022) - 52 = - int j" using lo hi by (simp add: j_def)
  have p: "(2::rat) powi (- int j) = 1 / 2 ^ j" by (simp add: power_int_minus_divide)
  have "?x / 2 powi (- int j) = of_int (n * 2 ^ j)" by (simp add: p)
  then have "round_half_even (?x / 2 powi (- int j)) = n * 2 ^ j"
    by (simp only: round_half_even_of_int)
  then show ?thesis using x0 by (simp add: b64_value_def Let_def e p)
qed

lemma b64_tiny_le: "b64_tiny \<le> 1 / 2 ^ 75" and b64_tiny_nonneg: "0 \<le> b64_tiny"
proof -
  have "(2::rat) powi (- 1075) \<le> 2 powi (- 75)"
    by (rule power_int_increasing) simp_all
  also have "\<dots> = 1 / 2 ^ 75" by (simp add: power_int_minus_divide)
  finally show "b64_tiny \<le> 1 / 2 ^ 75" by (simp only: b64_tiny_def)
  show "0 \<le> b64_tiny" by (simp add: b64_tiny_def less_imp_le)
qed

text \<open>A result far from the overflow threshold is the rounded value.\<close>

lemma b64_finite:
  assumes "\<bar>x\<bar> \<le> 2 powi 1020"
  shows "b64 x = Finite (b64_value x)"
proof -
  define A where "A = (2::rat) powi 1020"
  define y where "y = b64_value x"
  have A1: "1 \<le> A"
    unfolding A_def using power_int_increasing [of 0 1020 "2::rat"] by simp
  have A16: "(2::rat) powi 1024 = A * 16"
    unfolding A_def using power_int_add [of "2::rat" 1020 4] by simp
  have "\<bar>y\<bar> \<le> \<bar>x\<bar> + \<bar>y - x\<bar>" by linarith
  also have "\<dots> \<le> \<bar>x\<bar> + (\<bar>x\<bar> / 2 ^ 53 + b64_tiny)"
    using b64_value_error [of x] by (simp add: y_def)
  also have "\<dots> \<le> \<bar>x\<bar> + (\<bar>x\<bar> + 1)"
  proof -
    have "\<bar>x\<bar> / 2 ^ 53 \<le> \<bar>x\<bar> / 1" by (rule divide_left_mono) simp_all
    moreover have "b64_tiny \<le> 1" using b64_tiny_le by simp
    ultimately show ?thesis by simp
  qed
  also have "\<dots> \<le> A + (A + A)" using assms A1 by (simp add: A_def)
  also have "\<dots> < A * 16" using A1 by simp
  finally have lt: "\<bar>y\<bar> < 2 powi 1024" by (simp only: A16)
  have "ilog2 y < 1024" if "y \<noteq> 0"
  proof -
    from ilog2_bounds(1) [OF that] lt have "(2::rat) powi (ilog2 y) < 2 powi 1024" by linarith
    then show ?thesis using power_int_le_imp_less_exp [of "2::rat" "ilog2 y" 1024] by simp
  qed
  then show ?thesis by (auto simp: b64_def Let_def y_def [symmetric])
qed

text \<open>
  The scaling \<^verbatim>\<open>255.*x/m\<close> of a sample \<open>0 \<le> x \<le> m\<close>, for a normalisation constant that
  is neither tiny nor huge: the float result is finite (the two roundings applied in
  turn), lies in [0, 256) and is the exact quotient up to \<open>2 ^ - 40\<close>.
\<close>

lemma scale_bounds:
  assumes m_lo: "2 powi (- 1000) \<le> m" and m_hi: "m \<le> 2 powi 1000"
    and x_lo: "0 \<le> x" and x_hi: "x \<le> m"
  shows "np_div (np_mul (Finite 255) (Finite x)) (Finite m)
           = Finite (b64_value (b64_value (255 * x) / m))"
    and "0 \<le> b64_value (b64_value (255 * x) / m)"
    and "b64_value (b64_value (255 * x) / m) < 256"
    and "\<bar>b64_value (b64_value (255 * x) / m) - 255 * x / m\<bar> \<le> 1 / 2 ^ 40"
proof -
  define B where "B = (2::rat) powi 1000"
  define L where "L = (2::rat) powi (- 1000)"
  define r where "r = b64_value (255 * x)"
  define q where "q = r / m"
  define s where "s = b64_value q"
  define \<rho> where "\<rho> = x / m"
  define t where "t = b64_tiny"
  have Lpos: "0 < L" unfolding L_def by (rule two_powi_pos)
  have m_ge: "L \<le> m" using m_lo unfolding L_def .
  have m_le: "m \<le> B" using m_hi unfolding B_def .
  have m_pos: "0 < m" using m_ge Lpos by linarith
  have B1: "1 \<le> B"
    unfolding B_def using power_int_increasing [of 0 1000 "2::rat"] by simp
  have big: "(2::rat) powi 1020 = B * 1048576"
    unfolding B_def using power_int_add [of "2::rat" 1000 20] by simp
  have t0: "0 \<le> t" and t75: "t \<le> 1 / 2 ^ 75"
    using b64_tiny_nonneg b64_tiny_le by (simp_all add: t_def)
  have tL: "t = L * (1 / 2 ^ 75)"
    unfolding t_def L_def b64_tiny_def
    using power_int_add [of "2::rat" "- 1000" "- 75"] by (simp add: power_int_minus_divide)
  have tm: "t / m \<le> 1 / 2 ^ 75"
  proof -
    have "t / m \<le> t / L"
      using m_ge t0 by (rule divide_left_mono) (simp add: m_pos Lpos)
    also have "\<dots> = 1 / 2 ^ 75" using Lpos by (simp add: tL)
    finally show ?thesis .
  qed
  have \<rho>: "0 \<le> \<rho>" "\<rho> \<le> 1"
    using x_lo x_hi m_pos by (simp_all add: \<rho>_def)
  have xm: "255 * x / m = 255 * \<rho>" by (simp add: \<rho>_def)
  have "\<bar>255 * x\<bar> \<le> 255 * B" using x_lo x_hi m_le by simp
  also have "\<dots> \<le> B * 1048576" using B1 by simp
  finally have "\<bar>255 * x\<bar> \<le> 2 powi 1020" by (simp only: big)
  then have mul: "np_mul (Finite 255) (Finite x) = Finite r"
    by (simp add: r_def b64_finite)
  have r0: "0 \<le> r" unfolding r_def using x_lo by (intro b64_value_nonneg) simp
  have e1: "\<bar>r - 255 * x\<bar> \<le> 255 * x / 2 ^ 53 + t"
    using b64_value_error [of "255 * x"] x_lo by (simp add: r_def t_def abs_mult)
  have q0: "0 \<le> q" using r0 m_pos by (simp add: q_def)
  have "q - 255 * \<rho> = (r - 255 * x) / m"
    using m_pos by (simp add: q_def \<rho>_def diff_divide_distrib)
  then have "\<bar>q - 255 * \<rho>\<bar> = \<bar>r - 255 * x\<bar> / m"
    using m_pos by (simp add: abs_divide)
  also have "\<dots> \<le> (255 * x / 2 ^ 53 + t) / m"
    using e1 m_pos by (simp add: divide_right_mono)
  also have "\<dots> = 255 * \<rho> / 2 ^ 53 + t / m"
    by (simp add: \<rho>_def add_divide_distrib)
  also have "\<dots> \<le> 255 / 2 ^ 53 + 1 / 2 ^ 75"
    using \<rho> tm by (intro add_mono) simp_all
  finally have e2: "\<bar>q - 255 * \<rho>\<bar> \<le> 255 / 2 ^ 53 + 1 / 2 ^ 75" .
  have "255 / 2 ^ 53 + 1 / 2 ^ 75 \<le> (1::rat)" by simp
  with e2 \<rho> have q256: "q \<le> 256" by linarith
  have "\<bar>q\<bar> \<le> B * 1048576" using q0 q256 B1 by simp
  then have "\<bar>q\<bar> \<le> 2 powi 1020" by (simp only: big)
  then have dv: "np_div (Finite r) (Finite m) = Finite s"
    using m_pos by (simp add: s_def q_def b64_finite)
  have s0: "0 \<le> s" unfolding s_def using q0 by (rule b64_value_nonneg)
  have "\<bar>s - q\<bar> \<le> q / 2 ^ 53 + t"
    using b64_value_error [of q] q0 by (simp add: s_def t_def)
  also have "\<dots> \<le> 256 / 2 ^ 53 + 1 / 2 ^ 75"
    using q256 t75 by (intro add_mono) simp_all
  finally have e3: "\<bar>s - q\<bar> \<le> 256 / 2 ^ 53 + 1 / 2 ^ 75" .
  have "\<bar>s - 255 * \<rho>\<bar> \<le> \<bar>s - q\<bar> + \<bar>q - 255 * \<rho>\<bar>" by linarith
  also have "\<dots> \<le> (256 / 2 ^ 53 + 1 / 2 ^ 75) + (255 / 2 ^ 53 + 1 / 2 ^ 75)"
    using e2 e3 by (rule add_mono [rotated])
  also have "\<dots> \<le> 1 / 2 ^ 40" by simp
  finally have err: "\<bar>s - 255 * \<rho>\<bar> \<le> 1 / 2 ^ 40" .
  have "s \<le> 255 * \<rho> + 1 / 2 ^ 40" using err by linarith
  also have "\<dots> \<le> 255 + 1 / 2 ^ 40" using \<rho> by simp
  also have "\<dots> < 256" by simp
  finally have s256: "s < 256" .
  have s: "s = b64_value (b64_value (255 * x) / m)" by (simp add: s_def q_def r_def)
  from mul dv show "np_div (np_mul (Finite 255) (Finite x)) (Finite m)
           = Finite (b64_value (b64_value (255 * x) / m))" by (simp add: s)
  from s0 show "0 \<le> b64_value (b64_value (255 * x) / m)" by (simp add: s)
  from s256 show "b64_value (b64_value (255 * x) / m) < 256" by (simp add: s)
  from err show "\<bar>b64_value (b64_value (255 * x) / m) - 255 * x / m\<bar> \<le> 1 / 2 ^ 40"
    by (simp add: s xm)
qed

text \<open>The 8-bit cast of a float in [0, 256) is its integer part: it does not wrap.\<close>

lemma uint8_in_range:
  assumes "0 \<le> s" and "s < 256"
  shows "uint (uint8 (Finite s)) = \<lfloor>s\<rfloor>"
proof -
  have lo: "0 \<le> \<lfloor>s\<rfloor>" using assms(1) by simp
  have hi: "\<lfloor>s\<rfloor> < 256" using assms(2) by (simp add: floor_less_iff)
  have "py_int s = \<lfloor>s\<rfloor>" using assms(1) by (simp add: py_int_def)
  moreover have "uint (word_of_int \<lfloor>s\<rfloor> :: 8 word) = \<lfloor>s\<rfloor>"
    using lo hi by (simp add: uint_word_of_int)
  ultimately show ?thesis using lo hi by (simp add: uint8_def)
qed

lemma moderate:
  fixes m :: rat
  assumes "1 / 2 ^ 64 \<le> m" and "m \<le> 2 ^ 64"
  shows "2 powi (- 1000) \<le> m" and "m \<le> 2 powi 1000"
proof -
  have "(2::rat) powi (- 1000) \<le> 2 powi (- 64)"
    by (rule power_int_increasing) simp_all
  also have "\<dots> = 1 / 2 ^ 64" by (simp add: power_int_minus_divide)
  finally show "2 powi (- 1000) \<le> m" using assms(1) by (rule order_trans)
  have "(2::rat) powi 64 \<le> 2 powi 1000"
    by (rule power_int_increasing) simp_all
  moreover have "(2::rat) powi 64 = 2 ^ 64" by simp
  ultimately have "(2::rat) ^ 64 \<le> 2 powi 1000" by (simp only:)
  with assms(2) show "m \<le> 2 powi 1000" by (rule order_trans)
qed

text \<open>
  In fixed-depth mode an integer sample \<open>k\<close> of the 12-bit range maps to
  \<open>\<lfloor>255 * k / 4095\<rfloor>\<close>: the product is exact and the rounding of the quotient does not
  cross an integer.
\<close>

lemma fixed_depth_exact:
  assumes "0 \<le> k" and "k \<le> 4095"
  shows "\<lfloor>b64_value (b64_value (255 * of_int k) / 4095)\<rfloor> = 255 * k div 4095"
proof -
  define n where "n = 255 * k div 4095"
  define rem where "rem = 255 * k mod 4095"
  define s where "s = b64_value (b64_value (255 * of_int k) / 4095)"
  have split: "255 * k = 4095 * n + rem"
    unfolding n_def rem_def by (rule mult_div_mod_eq [symmetric])
  have rem: "0 \<le> rem" "rem < 4095"
    unfolding rem_def by (rule pos_mod_sign, simp) (rule pos_mod_bound, simp)
  have "n \<le> 255" using assms split rem by linarith
  have "0 \<le> n" using assms split rem by linarith
  have "b64_value (255 * of_int k) = b64_value (of_int (255 * k))" by simp
  also have "\<dots> = of_int (255 * k)"
    using assms by (intro b64_value_of_int) simp
  finally have prod: "b64_value (255 * of_int k) = of_int (4095 * n + rem)"
    by (simp only: split)
  have q: "(of_int (4095 * n + rem) :: rat) / 4095 = of_int n + of_int rem / 4095" by simp
  have "s = of_int n" if "rem = 0"
  proof -
    have "s = b64_value (of_int n)" by (simp add: s_def prod that)
    also have "\<dots> = of_int n"
      using \<open>0 \<le> n\<close> \<open>n \<le> 255\<close> by (intro b64_value_of_int) simp
    finally show ?thesis .
  qed
  moreover have "of_int n < s \<and> s < of_int n + 1" if "rem \<noteq> 0"
  proof -
    have m: "2 powi (- 1000) \<le> (4095::rat)" "(4095::rat) \<le> 2 powi 1000"
      by (rule moderate; simp)+
    have "(0::rat) \<le> of_int k" "(of_int k::rat) \<le> 4095" using assms by simp_all
    from scale_bounds(4) [OF m this]
    have "\<bar>s - of_int (255 * k) / 4095\<bar> \<le> 1 / 2 ^ 40" by (simp add: s_def)
    then have e: "\<bar>s - (of_int n + of_int rem / 4095)\<bar> \<le> 1 / 2 ^ 40"
      by (simp only: split q)
    define z :: rat where "z = of_int rem / 4095"
    define \<delta> :: rat where "\<delta> = 1 / 2 ^ 40"
    from that rem have "1 \<le> rem" "rem \<le> 4094" by simp_all
    then have "(1::rat) \<le> of_int rem" "(of_int rem :: rat) \<le> 4094" by simp_all
    then have z: "1 / 4095 \<le> z" "z \<le> 4094 / 4095"
      by (simp_all add: z_def)
    have \<delta>: "\<delta> < 1 / 4095" by (simp add: \<delta>_def)
    from e have "\<bar>s - (of_int n + z)\<bar> \<le> \<delta>" by (simp only: z_def \<delta>_def)
    with z \<delta> show ?thesis by linarith
  qed
  ultimately have "\<lfloor>s\<rfloor> = n" by (cases "rem = 0") (simp, simp add: floor_unique less_imp_le)
  then show ?thesis unfolding s_def n_def .
qed

subsection \<open>Helper lemmas: the loop over the directions\<close>

lemma rescale_dirs_snd_signal:
  "snd (rescale_dirs qf q True data ds tr1 out) = snd (rescale_dirs qf q False data ds tr2 out)"
  by (induction ds arbitrary: tr1 tr2 out) (auto simp: Let_def split: sum.splits)

lemma rescale_dirs_ok:
  assumes "\<And>d. d \<in> set ds \<Longrightarrow> rescale_channel (dtype data) qf q (channels data ! d) = Inr (ch d)"
  shows "rescale_dirs qf q sig data ds tr out =
           (tr @ concat (map (\<lambda>d. (if sig then [Emit (d + 1)] else []) @ [Stored d]) ds),
            Inr (fold (\<lambda>d out. out[d := ch d]) ds out))"
  using assms by (induction ds arbitrary: tr out) (simp_all add: Let_def)

lemma fold_update_nth:
  "d < length out \<Longrightarrow>
   fold (\<lambda>d out. out[d := ch d]) ds out ! d = (if d \<in> set ds then ch d else out ! d)"
  by (induction ds arbitrary: out) (auto simp: nth_list_update)

lemma fold_update_length:
  "length (fold (\<lambda>d out. out[d := ch d]) ds out) = length out"
  by (induction ds arbitrary: out) auto

lemma rescaleImageData_ok:
  assumes "\<And>d. d < length (channels data) \<Longrightarrow>
             rescale_channel (dtype data) qf q (channels data ! d) = Inr (ch d)"
  shows "\<exists>out. rescaleImageData data q False qf sig =
           (concat (map (\<lambda>d. (if sig then [Emit (d + 1)] else []) @ [Stored d])
              [0..<length (channels data)]), Inr out)
         \<and> length out = length (channels data) \<and> (\<forall>d < length (channels data). out ! d = ch d)"
proof -
  let ?zeros = "map (\<lambda>channel. map (\<lambda>_. 0) channel) (channels data) :: 8 word list list"
  let ?out = "fold (\<lambda>d out. out[d := ch d]) [0..<length (channels data)] ?zeros"
  have "rescaleImageData data q False qf sig =
          (concat (map (\<lambda>d. (if sig then [Emit (d + 1)] else []) @ [Stored d])
             [0..<length (channels data)]), Inr ?out)"
    unfolding rescaleImageData_def
    using rescale_dirs_ok [of "[0..<length (channels data)]" data qf q ch sig "[]" ?zeros] assms
    by simp
  moreover have "length ?out = length (channels data)" by (simp add: fold_update_length)
  moreover have "\<forall>d < length (channels data). ?out ! d = ch d" by (simp add: fold_update_nth)
  ultimately show ?thesis by blast
qed

text \<open>The trace of the loop, whether a channel raises or not.\<close>

lemma rescale_dirs_trace:
  "fst (rescale_dirs qf q sig data ds tr out) =
     tr @ concat (map (\<lambda>d. (if sig then [Emit (d + 1)] else []) @ [Stored d])
            (takeWhile (\<lambda>d. \<not> isl (rescale_channel (dtype data) qf q (channels data ! d))) ds))
     @ (case dropWhile (\<lambda>d. \<not> isl (rescale_channel (dtype data) qf q (channels data ! d))) ds of
          [] \<Rightarrow> [] | d # rest \<Rightarrow> if sig then [Emit (d + 1)] else [])"
  by (induction ds arbitrary: tr out) (auto simp: Let_def split: sum.splits)

lemma rescale_dirs_returns:
  "isl (snd (rescale_dirs qf q sig data ds tr out)) \<longleftrightarrow>
     dropWhile (\<lambda>d. \<not> isl (rescale_channel (dtype data) qf q (channels data ! d))) ds \<noteq> []"
  by (induction ds arbitrary: tr out) (auto simp: Let_def split: sum.splits)

lemma takeWhile_upt:
  "takeWhile P [0..<n] = [0..<length (takeWhile P [0..<n])]"
proof -
  have "takeWhile P [0..<n] = take (length (takeWhile P [0..<n])) [0..<n]"
    by (rule takeWhile_eq_take)
  also have "\<dots> = [0..<min (length (takeWhile P [0..<n])) n]"
    by (simp add: take_upt min_def)
  also have "min (length (takeWhile P [0..<n])) n = length (takeWhile P [0..<n])"
    using length_takeWhile_le [of P "[0..<n]"] by simp
  finally show ?thesis .
qed

lemma dropWhile_upt:
  "dropWhile P [0..<n] = [length (takeWhile P [0..<n])..<n]"
proof -
  have "dropWhile P [0..<n] = drop (length (takeWhile P [0..<n])) [0..<n]"
    by (rule dropWhile_eq_drop)
  then show ?thesis by (simp add: drop_upt)
qed

lemma sort_zeros_one: "sort (replicate n (0::rat) @ [1]) = replicate n 0 @ [1]"
  by (rule sorted_sort_id) (simp add: sorted_append)

lemma percentile_example: "percentile [0, 10, 20, 30, 40] 50 = Inr 20"
  by code_simp

subsection \<open>The intensity rescaler\<close>

text \<open>
  Claim C1, robust-percentile mode (\<^verbatim>\<open>fastest=False\<close>, a \<^verbatim>\<open>quantileFunc\<close> given), as the
  code has it. When the quantile function yields a value for every channel, the call
  returns a volume of the same number of channels, and channel \<open>d\<close> of it depends on
  channel \<open>d\<close> of the input only: with \<open>maxValue\<close> the percentile of that channel, every
  sample \<open>\<ge> maxValue\<close> is overwritten with \<open>maxValue\<close> (which an integer volume stores
  without its fractional part), the channel is scaled by \<open>255/maxValue\<close> in float64
  arithmetic and cast to 8 bits. If the cutoff is positive and neither tiny nor huge
  (between \<open>2 powi (- 1000)\<close> and \<open>2 powi 1000\<close>), a non-negative sample, once clamped to
  \<open>c\<close>, is scaled to a float \<open>s\<close> in [0, 256) that is \<open>255 * c / maxValue\<close> up to
  \<open>2 ^ - 40\<close>, and the byte stored is the integer part of \<open>s\<close>: the cast does not wrap. On
  a float64 volume a sample at or above the cutoff maps to 254 or to 255. The claim's
  hypothesis (a strictly positive sample) is replaced by one on the cutoff itself.
\<close>

theorem robust_percentile_rescale:
  assumes every: "\<forall>c \<in> set (channels data). \<exists>m. quantileFunc c quantile = Inr m"
    and d: "d < length (channels data)"
    and m: "quantileFunc (channels data ! d) quantile = Inr maxValue"
    and m_lo: "2 powi (- 1000) \<le> maxValue" and m_hi: "maxValue \<le> 2 powi 1000"
    and i: "i < length (channels data ! d)"
    and x: "0 \<le> channels data ! d ! i"
  shows "\<exists>tr out c s.
        rescaleImageData data quantile False (Some quantileFunc) signal = (tr, Inr out)
      \<and> length out = length (channels data)
      \<and> out ! d = cast_uint8
                     (map (\<lambda>x. if maxValue \<le> x then astype (dtype data) maxValue else x)
                        (channels data ! d)) maxValue
      \<and> c = (if maxValue \<le> channels data ! d ! i then astype (dtype data) maxValue
             else channels data ! d ! i)
      \<and> np_div (np_mul (Finite 255) (Finite c)) (Finite maxValue) = Finite s
      \<and> 0 \<le> s \<and> s < 256 \<and> \<bar>s - 255 * c / maxValue\<bar> \<le> 1 / 2 ^ 40
      \<and> uint (out ! d ! i) = \<lfloor>s\<rfloor>
      \<and> (dtype data = Float64 \<and> maxValue \<le> channels data ! d ! i \<longrightarrow>
           uint (out ! d ! i) = 254 \<or> uint (out ! d ! i) = 255)"
proof -
  define ch where "ch k = (case rescale_channel (dtype data) (Some quantileFunc) quantile (channels data ! k) of Inr c \<Rightarrow> c | Inl e \<Rightarrow> [])" for k
  have ok: "rescale_channel (dtype data) (Some quantileFunc) quantile (channels data ! k) = Inr (ch k)"
    if "k < length (channels data)" for k
  proof -
    from that every obtain m' where "quantileFunc (channels data ! k) quantile = Inr m'"
      by (meson nth_mem)
    then show ?thesis by (simp add: ch_def rescale_channel_def)
  qed
  from rescaleImageData_ok [of data "Some quantileFunc" quantile ch signal] ok
  obtain tr out
    where res: "rescaleImageData data quantile False (Some quantileFunc) signal = (tr, Inr out)"
      and len: "length out = length (channels data)"
      and nth: "\<forall>k < length (channels data). out ! k = ch k"
    by blast
  define xi where "xi = channels data ! d ! i"
  define c where "c = (if maxValue \<le> xi then astype (dtype data) maxValue else xi)"
  define s where "s = b64_value (b64_value (255 * c) / maxValue)"
  let ?clamped = "map (\<lambda>x. if maxValue \<le> x then astype (dtype data) maxValue else x) (channels data ! d)"
  have chd: "out ! d = cast_uint8 ?clamped maxValue"
    using nth d m by (simp add: ch_def rescale_channel_def)
  have px: "out ! d ! i = uint8 (np_div (np_mul (Finite 255) (Finite c)) (Finite maxValue))"
    using i by (simp add: chd cast_uint8_def c_def xi_def)
  have m_pos: "0 < maxValue"
    using m_lo two_powi_pos [of "- 1000"] by linarith
  have trunc: "0 \<le> astype (dtype data) maxValue \<and> astype (dtype data) maxValue \<le> maxValue"
    using m_pos by (cases "dtype data") (simp_all add: py_int_def less_imp_le)
  have c_range: "0 \<le> c" "c \<le> maxValue"
    using x trunc by (simp_all add: c_def xi_def)
  note sb = scale_bounds [OF m_lo m_hi c_range]
  have fin: "np_div (np_mul (Finite 255) (Finite c)) (Finite maxValue) = Finite s"
    using sb(1) by (simp add: s_def)
  have s0: "0 \<le> s" and s256: "s < 256" and err: "\<bar>s - 255 * c / maxValue\<bar> \<le> 1 / 2 ^ 40"
    using sb(2-4) by (simp_all add: s_def)
  have byte: "uint (out ! d ! i) = \<lfloor>s\<rfloor>"
    unfolding px fin using s0 s256 by (rule uint8_in_range)
  have top: "uint (out ! d ! i) = 254 \<or> uint (out ! d ! i) = 255"
    if "dtype data = Float64" "maxValue \<le> xi"
  proof -
    from that have "c = maxValue" by (simp add: c_def)
    with m_pos have "255 * c / maxValue = 255" by simp
    with err have e: "\<bar>s - 255\<bar> \<le> 1 / 2 ^ 40" by simp
    have "(1::rat) / 2 ^ 40 \<le> 1" by simp
    with e have "254 \<le> s" by linarith
    then have "254 \<le> \<lfloor>s\<rfloor>" by (simp add: le_floor_iff)
    moreover have "\<lfloor>s\<rfloor> < 256" using s256 by (simp add: floor_less_iff)
    ultimately show ?thesis unfolding byte by linarith
  qed
  from res len chd fin s0 s256 err byte top show ?thesis
    unfolding c_def xi_def by blast
qed

text \<open>
  Witness for C1: one float64 channel \<open>[0, 10, 20, 30, 40]\<close> at the quantile 50. The
  cutoff is 20, and the sample 20 maps to 254 or 255.
\<close>

theorem robust_percentile_witness:
  "\<exists>tr out. rescaleImageData \<lparr>dtype = Float64, channels = [[0, 10, 20, 30, 40]]\<rparr> 50 False
               (Some percentile) False = (tr, Inr out)
      \<and> length out = 1
      \<and> (uint (out ! 0 ! 2) = 254 \<or> uint (out ! 0 ! 2) = 255)"
proof -
  let ?data = "\<lparr>dtype = Float64, channels = [[0, 10, 20, 30, 40]]\<rparr>"
  have every: "\<forall>c \<in> set (channels ?data). \<exists>m. percentile c 50 = Inr m"
    using percentile_example by simp
  have d: "(0::nat) < length (channels ?data)" by simp
  have m: "percentile (channels ?data ! 0) 50 = Inr 20"
    using percentile_example by simp
  have r: "2 powi (- 1000) \<le> (20::rat)" "(20::rat) \<le> 2 powi 1000"
    by (rule moderate; simp)+
  have i: "(2::nat) < length (channels ?data ! 0)" by simp
  have x: "0 \<le> channels ?data ! 0 ! 2" by simp
  from robust_percentile_rescale [of ?data percentile 50 0 20 2 False] every d m r i x
  obtain tr out where
    "rescaleImageData ?data 50 False (Some percentile) False = (tr, Inr out)"
    "length out = length (channels ?data)"
    "dtype ?data = Float64 \<and> 20 \<le> channels ?data ! 0 ! 2 \<longrightarrow>
       uint (out ! 0 ! 2) = 254 \<or> uint (out ! 0 ! 2) = 255"
    by blast
  then show ?thesis by (intro exI [of _ tr] exI [of _ out]) simp
qed

text \<open>
  Counterexamples to C1 as stated. A float64 channel of 400 zeros and one sample 1 has a
  strictly positive sample, yet its 99.5th percentile is 0 (the virtual index is 398): the
  code sets every sample to 0 and divides by \<open>maxValue = 0\<close>, every scaled sample is NaN
  and every byte stored is 0; no sample, those at the cutoff included, maps to 255. A
  float64 channel holding the one sample 1.1 (the float nearest to it) has the cutoff
  1.1, and \<^verbatim>\<open>255.*1.1/1.1\<close> is rounded twice, to a float below 255: the sample at the
  cutoff maps to 254. On an integer channel \<open>[0, 10, 20, 30]\<close> the cutoff is 29.85 (to a
  rounding), the sample 30 is overwritten with 29, not with the cutoff, and maps to 247.
\<close>

theorem robust_percentile_zero_cutoff:
  "rescaleImageData \<lparr>dtype = Float64, channels = [replicate 400 0 @ [1]]\<rparr> (995 / 10) False
       (Some percentile) False
     = ([Stored 0], Inr [replicate 401 0])
   \<and> rescaleImageData
       \<lparr>dtype = Float64, channels = [[2476979795053773 / 2251799813685248]]\<rparr> (995 / 10) False
       (Some percentile) False
     = ([Stored 0], Inr [[254]])
   \<and> rescaleImageData \<lparr>dtype = Integer, channels = [[0, 10, 20, 30]]\<rparr> (995 / 10) False
       (Some percentile) False
     = ([Stored 0], Inr [[0, 85, 170, 247]])"
proof -
  have q: "b64_value (199 / 200) = 8962163258467287 / 9007199254740992" by code_simp
  have v: "b64_value (400 * (8962163258467287 / 9007199254740992)) = 398" by code_simp
  have len: "length (replicate 400 (0::rat) @ [1]) - 1 = 400" by simp
  have q1: "b64_value (995 / 10 / 100) = 8962163258467287 / 9007199254740992"
    using q by simp
  have z0: "b64_value 0 = 0" by (simp add: b64_value_def)
  have p: "percentile (replicate 400 0 @ [1]) (995 / 10) = Inr 0"
    unfolding percentile_def Let_def q1 len sort_zeros_one
    by (simp only: v of_nat_numeral) (simp add: nth_append z0)
  have b0: "b64 0 = Finite 0" by (simp add: b64_def b64_value_def)
  have z: "uint8 (signed_inf 0) = 0"
    by (simp add: signed_inf_def uint8_def)
  have r401: "replicate 401 (0::8 word) = replicate 400 0 @ [0]"
    using replicate_Suc [of 400 "0::8 word"] by (simp add: replicate_append_same)
  have c: "rescale_channel Float64 (Some percentile) (995 / 10) (replicate 400 0 @ [1])
             = Inr (replicate 401 0)"
    unfolding rescale_channel_def option.case p sum.case
    by (simp add: cast_uint8_def b0 z r401)
  have r1: "rescaleImageData \<lparr>dtype = Float64, channels = [replicate 400 0 @ [1]]\<rparr> (995 / 10) False
       (Some percentile) False = ([Stored 0], Inr [replicate 401 0])"
    unfolding rescaleImageData_def by (simp add: c [simplified])
  have r2: "rescaleImageData
       \<lparr>dtype = Float64, channels = [[2476979795053773 / 2251799813685248]]\<rparr> (995 / 10) False
       (Some percentile) False = ([Stored 0], Inr [[254]])"
    by code_simp
  have r3: "rescaleImageData \<lparr>dtype = Integer, channels = [[0, 10, 20, 30]]\<rparr> (995 / 10) False
       (Some percentile) False = ([Stored 0], Inr [[0, 85, 170, 247]])"
    by code_simp
  from r1 r2 r3 show ?thesis by blast
qed

text \<open>
  Claim C3, fixed-depth mode (\<^verbatim>\<open>fastest=True\<close>), as the code has it: every sample \<open>x\<close> is
  scaled by the constant 255/4095 in float64 arithmetic and cast, with no clamp, no
  per-channel work and no signal. For a sample in the 12-bit range [0, 4095] (what the
  comment at line 75 of the source takes the data to be) the scaled float \<open>s\<close> lies in
  [0, 256), it is \<open>255 * x / 4095\<close> up to \<open>2 ^ - 40\<close>, and the byte stored is its integer
  part: the cast does not wrap. For an integer sample \<open>k\<close> of that range the byte is
  exactly \<open>\<lfloor>255 * k / 4095\<rfloor>\<close> (so 255 for 4095 only).
\<close>

theorem fixed_depth_scaling:
  assumes "d < length (channels data)" and "i < length (channels data ! d)"
  shows "\<exists>out. rescaleImageData data quantile True quantileFunc signal = ([], Inr out)
           \<and> out ! d ! i
               = uint8 (np_div (np_mul (Finite 255) (Finite (channels data ! d ! i))) (Finite 4095))
           \<and> (0 \<le> channels data ! d ! i \<and> channels data ! d ! i \<le> 4095 \<longrightarrow>
                (\<exists>s. np_div (np_mul (Finite 255) (Finite (channels data ! d ! i))) (Finite 4095)
                        = Finite s
                     \<and> 0 \<le> s \<and> s < 256 \<and> \<bar>s - 255 * (channels data ! d ! i) / 4095\<bar> \<le> 1 / 2 ^ 40
                     \<and> uint (out ! d ! i) = \<lfloor>s\<rfloor>))
           \<and> (\<forall>k. channels data ! d ! i = of_int k \<and> 0 \<le> k \<and> k \<le> 4095 \<longrightarrow>
                uint (out ! d ! i) = 255 * k div 4095)"
proof -
  define x where "x = channels data ! d ! i"
  let ?out = "map (\<lambda>channel. cast_uint8 channel 4095) (channels data)"
  have res: "rescaleImageData data quantile True quantileFunc signal = ([], Inr ?out)"
    by (simp add: rescaleImageData_def)
  have px: "?out ! d ! i = uint8 (np_div (np_mul (Finite 255) (Finite x)) (Finite 4095))"
    using assms by (simp add: cast_uint8_def x_def)
  have m: "2 powi (- 1000) \<le> (4095::rat)" "(4095::rat) \<le> 2 powi 1000"
    by (rule moderate; simp)+
  have rng: "\<exists>s. np_div (np_mul (Finite 255) (Finite x)) (Finite 4095) = Finite s
               \<and> 0 \<le> s \<and> s < 256 \<and> \<bar>s - 255 * x / 4095\<bar> \<le> 1 / 2 ^ 40
               \<and> uint (?out ! d ! i) = \<lfloor>s\<rfloor>"
    if lo: "0 \<le> x" and hi: "x \<le> 4095"
  proof -
    note sb = scale_bounds [OF m lo hi]
    have "uint (?out ! d ! i) = \<lfloor>b64_value (b64_value (255 * x) / 4095)\<rfloor>"
      unfolding px sb(1) using sb(2) sb(3) by (rule uint8_in_range)
    with sb show ?thesis by blast
  qed
  have exact: "uint (?out ! d ! i) = 255 * k div 4095"
    if "x = of_int k" "0 \<le> k" "k \<le> 4095" for k
  proof -
    have lo: "0 \<le> x" and hi: "x \<le> 4095" using that by simp_all
    note sb = scale_bounds [OF m lo hi]
    have "uint (?out ! d ! i) = \<lfloor>b64_value (b64_value (255 * x) / 4095)\<rfloor>"
      unfolding px sb(1) using sb(2) sb(3) by (rule uint8_in_range)
    also have "\<dots> = 255 * k div 4095"
      unfolding that(1) using that(2,3) by (rule fixed_depth_exact)
    finally show ?thesis .
  qed
  from res px rng exact show ?thesis unfolding x_def by blast
qed

text \<open>Witness for C3: the sample 2048 maps to 127.\<close>

theorem fixed_depth_witness:
  "\<exists>out. rescaleImageData \<lparr>dtype = Integer, channels = [[0, 2048, 4095]]\<rparr> (995 / 10) True
            (Some percentile) False = ([], Inr out)
     \<and> uint (out ! 0 ! 1) = 127"
proof -
  let ?data = "\<lparr>dtype = Integer, channels = [[0, 2048, 4095]]\<rparr>"
  have "(0::nat) < length (channels ?data)"
    and "(1::nat) < length (channels ?data ! 0)" by simp_all
  from fixed_depth_scaling [OF this, of "995 / 10" "Some percentile" False]
  obtain out where
    r: "rescaleImageData ?data (995 / 10) True (Some percentile) False = ([], Inr out)"
    and k: "\<forall>k. channels ?data ! 0 ! 1 = of_int k \<and> 0 \<le> k \<and> k \<le> 4095 \<longrightarrow>
                uint (out ! 0 ! 1) = 255 * k div 4095"
    by blast
  have "channels ?data ! 0 ! 1 = of_int 2048 \<and> (0::int) \<le> 2048 \<and> (2048::int) \<le> 4095" by simp
  with k have "uint (out ! 0 ! 1) = 255 * 2048 div 4095" by blast
  then have "uint (out ! 0 ! 1) = 127" by simp
  with r show ?thesis by blast
qed

text \<open>
  Counterexample to C3 as stated: the sample 4112 is above 4095; it is not clamped,
  \<^verbatim>\<open>255.*4112/4095.\<close> is just above 256 and the cast keeps the low 8 bits of 256: the
  byte stored is 0, not 255.
\<close>

theorem fixed_depth_wraps:
  "rescaleImageData \<lparr>dtype = Integer, channels = [[4112]]\<rparr> (995 / 10) True (Some percentile) False
     = ([], Inr [[0]])
   \<and> \<lfloor>255 * 4112 / (4095 :: rat)\<rfloor> = 256"
  by code_simp

text \<open>
  Claim C6, progress reporting in the per-channel modes, as the code has it. The rescaled
  volume (or the exception) is the same whether a signal is passed or not. The loop
  completes the first \<open>n\<close> directions, all of them exactly when the call returns a
  volume. With a signal the trace is \<open>Emit 1, Stored 0, \<dots>, Emit n, Stored (n - 1)\<close>,
  followed by \<open>Emit (n + 1)\<close> when the work on channel \<open>n\<close> raises: the 1-based index of
  a channel is emitted once, before the work on that channel starts (line 84 is the
  first statement of the loop body), not after it completes, and it is also emitted
  for the channel that fails. Without a signal nothing is emitted.
\<close>

theorem progress_signal:
  "snd (rescaleImageData data quantile fastest quantileFunc True)
     = snd (rescaleImageData data quantile fastest quantileFunc False)
   \<and> fst (rescaleImageData data quantile False quantileFunc True)
       = concat (map (\<lambda>d. [Emit (d + 1), Stored d]) [0..<completed data quantile quantileFunc])
         @ (if completed data quantile quantileFunc < length (channels data)
            then [Emit (completed data quantile quantileFunc + 1)] else [])
   \<and> fst (rescaleImageData data quantile False quantileFunc False)
       = map Stored [0..<completed data quantile quantileFunc]
   \<and> (isl (snd (rescaleImageData data quantile False quantileFunc True))
        = (completed data quantile quantileFunc < length (channels data)))"
proof -
  let ?P = "\<lambda>d. \<not> isl (rescale_channel (dtype data) quantileFunc quantile (channels data ! d))"
  let ?n = "length (channels data)"
  let ?k = "completed data quantile quantileFunc"
  have k: "?k = length (takeWhile ?P [0..<?n])" by (simp add: completed_def)
  have tw: "takeWhile ?P [0..<?n] = [0..<?k]"
    unfolding k by (rule takeWhile_upt)
  have dw: "dropWhile ?P [0..<?n] = [?k..<?n]"
    unfolding k by (rule dropWhile_upt)
  have same: "snd (rescaleImageData data quantile fastest quantileFunc True)
     = snd (rescaleImageData data quantile fastest quantileFunc False)"
    by (simp add: rescaleImageData_def rescale_dirs_snd_signal)
  have t1: "fst (rescaleImageData data quantile False quantileFunc True)
       = concat (map (\<lambda>d. [Emit (d + 1), Stored d]) [0..<?k])
         @ (if ?k < ?n then [Emit (?k + 1)] else [])"
    unfolding rescaleImageData_def
    by (simp add: rescale_dirs_trace tw dw upt_conv_Cons del: upt_Suc)
  have "fst (rescaleImageData data quantile False quantileFunc False)
       = concat (map (\<lambda>d. [Stored d]) [0..<?k])"
    unfolding rescaleImageData_def
    by (simp add: rescale_dirs_trace tw dw split: list.split)
  also have "\<dots> = map Stored [0..<?k]"
    by (induction ?k) simp_all
  finally have t2: "fst (rescaleImageData data quantile False quantileFunc False)
       = map Stored [0..<?k]" .
  have r: "isl (snd (rescaleImageData data quantile False quantileFunc True)) = (?k < ?n)"
    unfolding rescaleImageData_def by (auto simp: rescale_dirs_returns dw)
  from same t1 t2 r show ?thesis by blast
qed

text \<open>
  Counterexample to C6 as stated: with one channel, \<open>Emit 1\<close> comes before \<open>Stored 0\<close>;
  and when the work on the channel raises (an empty channel), the index has been emitted
  although the channel never completed.
\<close>

theorem progress_signal_before_channel:
  "rescaleImageData \<lparr>dtype = Float64, channels = [[1]]\<rparr> (995 / 10) False None True
     = ([Emit 1, Stored 0], Inr [[255]])
   \<and> rescaleImageData \<lparr>dtype = Float64, channels = [[]]\<rparr> (995 / 10) False None True
     = ([Emit 1], Inl ValueError)"
  by code_simp

text \<open>
  Claim C7, channel-max mode (\<^verbatim>\<open>quantileFunc=None\<close>) on an all-zero channel. When no
  channel is empty the call raises no exception, and the output channel of an all-zero
  channel is all zero. (The maximum is 0 and nothing guards the division: every scaled
  sample is the float \<open>0/0\<close>, NaN; numpy does not raise on it, and the 8-bit cast of NaN
  is 0. No NaN can remain in the output, whose elements are bytes.)
\<close>

theorem channel_max_zero_channel:
  assumes nonempty: "\<forall>c \<in> set (channels data). c \<noteq> []"
    and d: "d < length (channels data)"
    and zero: "\<forall>x \<in> set (channels data ! d). x = 0"
  shows "\<exists>tr out. rescaleImageData data quantile False None signal = (tr, Inr out)
      \<and> length out = length (channels data)
      \<and> out ! d = replicate (length (channels data ! d)) 0"
proof -
  define ch where "ch k = cast_uint8 (channels data ! k) (b64_value (Max (set (channels data ! k))))" for k
  have ok: "rescale_channel (dtype data) None quantile (channels data ! k) = Inr (ch k)"
    if "k < length (channels data)" for k
    using that nonempty by (simp add: ch_def rescale_channel_def)
  from rescaleImageData_ok [of data None quantile ch signal] ok
  obtain tr out where res: "rescaleImageData data quantile False None signal = (tr, Inr out)"
    and len: "length out = length (channels data)"
    and nth: "\<forall>k < length (channels data). out ! k = ch k"
    by blast
  from nonempty d have ne: "channels data ! d \<noteq> []" by simp
  then have "Max (set (channels data ! d)) \<in> set (channels data ! d)" by simp
  with zero have mx: "Max (set (channels data ! d)) = 0" by blast
  have z: "uint8 (np_div (np_mul (Finite 255) (Finite 0)) (Finite 0)) = 0"
    by (simp add: b64_def b64_value_def signed_inf_def uint8_def)
  have "out ! d = map (\<lambda>x. uint8 (np_div (np_mul (Finite 255) (Finite x)) (Finite 0))) (channels data ! d)"
    using nth d by (simp add: ch_def cast_uint8_def mx b64_value_def)
  also have "\<dots> = map (\<lambda>x. 0) (channels data ! d)"
    using zero z by (intro map_cong) auto
  also have "\<dots> = replicate (length (channels data ! d)) 0"
    by (simp add: map_replicate_const)
  finally have "out ! d = replicate (length (channels data ! d)) 0" .
  with res len show ?thesis by blast
qed

text \<open>Witness for C7: a volume whose first channel is all zero.\<close>

theorem channel_max_zero_witness:
  "\<exists>tr out. rescaleImageData \<lparr>dtype = Float64, channels = [[0, 0], [3, 6]]\<rparr> (995 / 10) False
               None False = (tr, Inr out)
      \<and> out ! 0 = [0, 0]"
proof -
  let ?data = "\<lparr>dtype = Float64, channels = [[0, 0], [3, 6]]\<rparr>"
  have "\<forall>c \<in> set (channels ?data). c \<noteq> []" by simp
  moreover have "(0::nat) < length (channels ?data)" by simp
  moreover have "\<forall>x \<in> set (channels ?data ! 0). x = 0" by simp
  ultimately obtain tr out
    where "rescaleImageData ?data (995 / 10) False None False = (tr, Inr out)"
      and "out ! 0 = replicate (length (channels ?data ! 0)) 0"
    using channel_max_zero_channel [of ?data 0 "995 / 10" False] by blast
  then show ?thesis
    by (intro exI [of _ tr] exI [of _ out]) (simp add: numeral_2_eq_2)
qed

subsection \<open>The preview geometry\<close>

lemma far_from_overflow:
  fixes x :: rat
  assumes "\<bar>x\<bar> \<le> 2 ^ 64"
  shows "\<bar>x\<bar> \<le> 2 powi 1020"
proof -
  have "(2::rat) powi 64 \<le> 2 powi 1020"
    by (rule power_int_increasing) simp_all
  moreover have "(2::rat) powi 64 = 2 ^ 64" by simp
  ultimately have "(2::rat) ^ 64 \<le> 2 powi 1020" by (simp only:)
  with assms show ?thesis by (rule order_trans)
qed

text \<open>
  The shrunk side \<^verbatim>\<open>int(a/b*p)\<close> before the truncation, for extents \<open>0 < a \<le> b\<close> and a
  side \<open>p\<close> of the box: the float is finite, not negative, and is \<open>p * a / b\<close> up to
  \<open>2 ^ - 20\<close>.
\<close>

lemma shrink_bounds:
  fixes a b :: rat and p :: int
  assumes a: "0 < a" and ab: "a \<le> b" and p0: "0 \<le> p" and p31: "p \<le> 2 ^ 31"
  shows "np_mul (np_div (Finite a) (Finite b)) (Finite (of_int p))
           = Finite (b64_value (b64_value (a / b) * of_int p))"
    and "0 \<le> b64_value (b64_value (a / b) * of_int p)"
    and "\<bar>b64_value (b64_value (a / b) * of_int p) - of_int p * a / b\<bar> \<le> 1 / 2 ^ 20"
proof -
  define \<rho> where "\<rho> = a / b"
  define q where "q = b64_value \<rho>"
  define H :: rat where "H = of_int p"
  define P where "P = b64_value (q * H)"
  define t where "t = b64_tiny"
  have b: "0 < b" using a ab by linarith
  have \<rho>: "0 \<le> \<rho>" "\<rho> \<le> 1" using a ab b by (simp_all add: \<rho>_def)
  have t0: "0 \<le> t" and t75: "t \<le> 1 / 2 ^ 75"
    using b64_tiny_nonneg b64_tiny_le by (simp_all add: t_def)
  have H: "0 \<le> H" "H \<le> 2 ^ 31"
  proof -
    show "0 \<le> H" using p0 by (simp add: H_def)
    have "(of_int p :: rat) \<le> of_int (2 ^ 31)" using p31 by (simp only: of_int_le_iff)
    then show "H \<le> 2 ^ 31" by (simp add: H_def)
  qed
  have "\<bar>\<rho>\<bar> \<le> 2 ^ 64" using \<rho> by simp
  then have "b64 \<rho> = Finite q"
    unfolding q_def by (intro b64_finite far_from_overflow)
  then have dv: "np_div (Finite a) (Finite b) = Finite q"
    using b by (simp add: \<rho>_def)
  have q0: "0 \<le> q" unfolding q_def using \<rho>(1) by (rule b64_value_nonneg)
  have "\<bar>q - \<rho>\<bar> \<le> \<rho> / 2 ^ 53 + t"
    using b64_value_error [of \<rho>] \<rho>(1) by (simp add: q_def t_def)
  also have "\<dots> \<le> 1 / 2 ^ 53 + 1 / 2 ^ 75"
    using \<rho>(2) t75 by (intro add_mono) simp_all
  finally have e1: "\<bar>q - \<rho>\<bar> \<le> 1 / 2 ^ 53 + 1 / 2 ^ 75" .
  have "1 / 2 ^ 53 + 1 / 2 ^ 75 \<le> (1::rat)" by simp
  with e1 \<rho> have q2: "q \<le> 2" by linarith
  have qH0: "0 \<le> q * H" using q0 H(1) by simp
  have "q * H \<le> 2 * 2 ^ 31" using q2 H q0 by (intro mult_mono) simp_all
  then have qH: "q * H \<le> 2 ^ 32" by simp
  then have "\<bar>q * H\<bar> \<le> 2 ^ 64" using qH0 by simp
  then have "b64 (q * H) = Finite P"
    unfolding P_def by (intro b64_finite far_from_overflow)
  then have mulP: "np_mul (Finite q) (Finite H) = Finite P" by simp
  have P0: "0 \<le> P" unfolding P_def using qH0 by (rule b64_value_nonneg)
  have "\<bar>P - q * H\<bar> \<le> q * H / 2 ^ 53 + t"
    using b64_value_error [of "q * H"] qH0 by (simp add: P_def t_def)
  also have "\<dots> \<le> 2 ^ 32 / 2 ^ 53 + 1 / 2 ^ 75"
    using qH t75 by (intro add_mono divide_right_mono) simp_all
  finally have e2: "\<bar>P - q * H\<bar> \<le> 2 ^ 32 / 2 ^ 53 + 1 / 2 ^ 75" .
  have "\<bar>q * H - \<rho> * H\<bar> = \<bar>q - \<rho>\<bar> * H"
    using H(1) by (simp add: left_diff_distrib [symmetric] abs_mult)
  also have "\<dots> \<le> (1 / 2 ^ 53 + 1 / 2 ^ 75) * 2 ^ 31"
    using e1 H by (intro mult_mono) simp_all
  finally have e3: "\<bar>q * H - \<rho> * H\<bar> \<le> (1 / 2 ^ 53 + 1 / 2 ^ 75) * 2 ^ 31" .
  have "\<bar>P - \<rho> * H\<bar> \<le> \<bar>P - q * H\<bar> + \<bar>q * H - \<rho> * H\<bar>" by linarith
  also have "\<dots> \<le> (2 ^ 32 / 2 ^ 53 + 1 / 2 ^ 75) + (1 / 2 ^ 53 + 1 / 2 ^ 75) * 2 ^ 31"
    using e2 e3 by (rule add_mono)
  also have "\<dots> \<le> 1 / 2 ^ 20" by simp
  finally have err: "\<bar>P - \<rho> * H\<bar> \<le> 1 / 2 ^ 20" .
  have P: "P = b64_value (b64_value (a / b) * of_int p)"
    by (simp add: P_def q_def \<rho>_def H_def)
  have \<rho>H: "\<rho> * H = of_int p * a / b" by (simp add: \<rho>_def H_def)
  from dv mulP show "np_mul (np_div (Finite a) (Finite b)) (Finite (of_int p))
           = Finite (b64_value (b64_value (a / b) * of_int p))"
    by (simp add: P H_def)
  from P0 show "0 \<le> b64_value (b64_value (a / b) * of_int p)" by (simp add: P)
  from err show "\<bar>b64_value (b64_value (a / b) * of_int p) - of_int p * a / b\<bar> \<le> 1 / 2 ^ 20"
    by (simp only: P \<rho>H)
qed

text \<open>What the truncation \<^verbatim>\<open>int\<close> makes of it: a side between 0 and \<open>p\<close>.\<close>

lemma shrunk_side:
  fixes a b :: rat and p :: int
  assumes a: "0 < a" and ab: "a \<le> b" and p0: "0 \<le> p" and p31: "p \<le> 2 ^ 31"
  shows "int_of_npfloat (np_mul (np_div (Finite a) (Finite b)) (Finite (of_int p)))
           = Inr (py_int (b64_value (b64_value (a / b) * of_int p)))"
    and "0 \<le> py_int (b64_value (b64_value (a / b) * of_int p))"
    and "py_int (b64_value (b64_value (a / b) * of_int p)) \<le> p"
    and "of_int p * a / b - 1 - 1 / 2 ^ 20
           < of_int (py_int (b64_value (b64_value (a / b) * of_int p)))"
    and "of_int (py_int (b64_value (b64_value (a / b) * of_int p)))
           \<le> of_int p * a / b + 1 / 2 ^ 20"
proof -
  define P where "P = b64_value (b64_value (a / b) * of_int p)"
  define \<delta> :: rat where "\<delta> = 1 / 2 ^ 20"
  define e where "e = of_int p * a / b"
  note sb = shrink_bounds [OF assms]
  have P0: "0 \<le> P" using sb(2) by (simp add: P_def)
  have err: "\<bar>P - e\<bar> \<le> \<delta>" using sb(3) by (simp only: P_def e_def \<delta>_def)
  have \<delta>: "0 < \<delta>" "\<delta> < 1" by (simp_all add: \<delta>_def)
  have b: "0 < b" using a ab by linarith
  have "a / b \<le> 1" using a ab b by simp
  then have "of_int p * (a / b) \<le> of_int p * 1"
    using p0 by (intro mult_left_mono) simp_all
  then have e_le: "e \<le> of_int p" by (simp add: e_def)
  have w: "py_int P = \<lfloor>P\<rfloor>" using P0 by (simp add: py_int_def)
  show "int_of_npfloat (np_mul (np_div (Finite a) (Finite b)) (Finite (of_int p)))
           = Inr (py_int (b64_value (b64_value (a / b) * of_int p)))"
    unfolding sb(1) by (simp add: int_of_npfloat_def)
  show "0 \<le> py_int (b64_value (b64_value (a / b) * of_int p))"
    unfolding P_def [symmetric] w using P0 by simp
  have "P < of_int p + 1" using err e_le \<delta> by linarith
  then have "P < of_int (p + 1)" by simp
  then have "\<lfloor>P\<rfloor> < p + 1" by (simp only: floor_less_iff)
  then show "py_int (b64_value (b64_value (a / b) * of_int p)) \<le> p"
    unfolding P_def [symmetric] w by simp
  have fl: "of_int \<lfloor>P\<rfloor> \<le> P" "P < of_int \<lfloor>P\<rfloor> + 1" by linarith+
  from fl(2) err have "e - 1 - \<delta> < of_int \<lfloor>P\<rfloor>" by linarith
  then show "of_int p * a / b - 1 - 1 / 2 ^ 20
           < of_int (py_int (b64_value (b64_value (a / b) * of_int p)))"
    unfolding P_def [symmetric] w e_def \<delta>_def .
  from fl(1) err have "of_int \<lfloor>P\<rfloor> \<le> e + \<delta>" by linarith
  then show "of_int (py_int (b64_value (b64_value (a / b) * of_int p)))
           \<le> of_int p * a / b + 1 / 2 ^ 20"
    unfolding P_def [symmetric] w e_def \<delta>_def .
qed

lemma numpy2grayscaleqimage_size:
  assumes "rescaleSize shape res previewsize = Inr (w, h)"
    and "0 < fst shape" and "0 < snd shape"
  shows "\<exists>img. numpy2grayscaleqimage shape res previewsize flipstate rot = Inr img
           \<and> img_size img = (if w \<le> 0 \<or> h \<le> 0 then (0, 0) else if rot then (h, w) else (w, h))"
  using assms
  by (simp add: numpy2grayscaleqimage_def mirrored_def transformed_rot90_def scaled_def
        QImage_def isNull_def null_image_def Let_def)

lemma positive_extent:
  assumes "np_mul (Finite r) (Finite (of_nat n)) = Finite e" and "0 < e"
  shows "0 < n"
proof (rule ccontr)
  assume "\<not> 0 < n"
  then have "n = 0" by simp
  with assms(1) have "e = 0" by (simp add: b64_def b64_value_def)
  with assms(2) show False by simp
qed

text \<open>
  Claim C5, the aspect-preserving size (lines 149 to 158), as the code has it, for a
  slice whose two extents, as the code computes them in float64 arithmetic
  (\<open>horizontal = res[0] * shape[0]\<close> and \<open>vertical = res[1] * shape[1]\<close>), are finite and
  positive, and a preview box \<open>previewBox\<close> with sides from 0 to \<open>2 ^ 31\<close>. If
  \<open>vertical \<ge> horizontal\<close> the height is the box's height \<open>h\<close> and the width \<open>w\<close> is the integer
  part of the float \<^verbatim>\<open>horizontal/vertical*h\<close> (a rounded quotient times \<open>h\<close>, rounded):
  it lies between 0 and \<open>h\<close>, and between \<open>h * horizontal / vertical - 1 - 2 ^ - 20\<close>
  (excluded) and \<open>h * horizontal / vertical + 2 ^ - 20\<close>; it is not always the integer
  part of \<open>h * horizontal / vertical\<close>. Else the width is the box's width and the height
  is shrunk in the same way. The image drawn has that size, with the two sides
  exchanged when it is rotated, unless one side is 0: then the image is the null image.
\<close>

theorem aspect_preserving_size:
  fixes shape :: "nat \<times> nat" and res :: "rat \<times> rat" and previewBox :: "int \<times> int"
  assumes hs: "horizontalSize shape res = Finite horizontal"
    and vs: "verticalSize shape res = Finite vertical"
    and pos: "0 < horizontal" "0 < vertical"
    and box: "0 \<le> fst previewBox" "fst previewBox \<le> 2 ^ 31"
             "0 \<le> snd previewBox" "snd previewBox \<le> 2 ^ 31"
  shows "\<exists>w h img.
           rescaleSize shape res previewBox = Inr (w, h)
         \<and> numpy2grayscaleqimage shape res previewBox flipstate rot = Inr img
         \<and> img_size img = (if w \<le> 0 \<or> h \<le> 0 then (0, 0) else if rot then (h, w) else (w, h))
         \<and> (horizontal \<le> vertical \<longrightarrow>
              h = snd previewBox
            \<and> w = py_int (b64_value (b64_value (horizontal / vertical) * of_int h))
            \<and> 0 \<le> w \<and> w \<le> h
            \<and> of_int h * horizontal / vertical - 1 - 1 / 2 ^ 20 < of_int w
            \<and> of_int w \<le> of_int h * horizontal / vertical + 1 / 2 ^ 20)
         \<and> (vertical < horizontal \<longrightarrow>
              w = fst previewBox
            \<and> h = py_int (b64_value (b64_value (vertical / horizontal) * of_int w))
            \<and> 0 \<le> h \<and> h \<le> w
            \<and> of_int w * vertical / horizontal - 1 - 1 / 2 ^ 20 < of_int h
            \<and> of_int h \<le> of_int w * vertical / horizontal + 1 / 2 ^ 20)"
proof -
  have dims: "0 < fst shape" "0 < snd shape"
    using positive_extent [of "fst res" "fst shape" horizontal]
      positive_extent [of "snd res" "snd shape" vertical] hs vs pos
    by (simp_all add: horizontalSize_def verticalSize_def)
  show ?thesis
  proof (cases "horizontal \<le> vertical")
    case True
    let ?w = "py_int (b64_value (b64_value (horizontal / vertical) * of_int (snd previewBox)))"
    note ss = shrunk_side [OF pos(1) True box(3,4)]
    have size: "rescaleSize shape res previewBox = Inr (?w, snd previewBox)"
      using True unfolding rescaleSize_def hs vs ss(1) by simp
    from numpy2grayscaleqimage_size [OF size dims, of flipstate rot]
    obtain img where "numpy2grayscaleqimage shape res previewBox flipstate rot = Inr img"
      and "img_size img = (if ?w \<le> 0 \<or> snd previewBox \<le> 0 then (0, 0)
                           else if rot then (snd previewBox, ?w) else (?w, snd previewBox))"
      by blast
    with size True ss(2-5) show ?thesis
      by (intro exI [of _ ?w] exI [of _ "snd previewBox"] exI [of _ img]) simp
  next
    case False
    then have lt: "vertical < horizontal" and le: "vertical \<le> horizontal" by simp_all
    let ?h = "py_int (b64_value (b64_value (vertical / horizontal) * of_int (fst previewBox)))"
    note ss = shrunk_side [OF pos(2) le box(1,2)]
    have size: "rescaleSize shape res previewBox = Inr (fst previewBox, ?h)"
      using False unfolding rescaleSize_def hs vs ss(1) by simp
    from numpy2grayscaleqimage_size [OF size dims, of flipstate rot]
    obtain img where "numpy2grayscaleqimage shape res previewBox flipstate rot = Inr img"
      and "img_size img = (if fst previewBox \<le> 0 \<or> ?h \<le> 0 then (0, 0)
                           else if rot then (?h, fst previewBox) else (fst previewBox, ?h))"
      by blast
    with size lt ss(2-5) show ?thesis
      by (intro exI [of _ "fst previewBox"] exI [of _ ?h] exI [of _ img]) simp
  qed
qed

text \<open>
  Witness for C5: a 96 by 96 slice with spacings 2 and 3 (extents 192 by 288) in the
  256 by 256 box is drawn 170 wide and 256 high.
\<close>

theorem aspect_preserving_witness:
  "\<exists>img. rescaleSize (96, 96) (2, 3) DEFAULT_PREVIEW_SIZE = Inr (170, 256)
     \<and> numpy2grayscaleqimage (96, 96) (2, 3) DEFAULT_PREVIEW_SIZE (False, False) False = Inr img
     \<and> img_size img = (170, 256)"
proof -
  have hs: "horizontalSize (96, 96) (2, 3) = Finite 192"
    and vs: "verticalSize (96, 96) (2, 3) = Finite 288"
    by code_simp+
  have pos: "(0::rat) < 192" "(0::rat) < 288" by simp_all
  have box: "(0::int) \<le> fst DEFAULT_PREVIEW_SIZE" "fst DEFAULT_PREVIEW_SIZE \<le> 2 ^ 31"
    "(0::int) \<le> snd DEFAULT_PREVIEW_SIZE" "snd DEFAULT_PREVIEW_SIZE \<le> 2 ^ 31"
    by (simp_all add: DEFAULT_PREVIEW_SIZE_def)
  have v: "py_int (b64_value (b64_value (192 / 288) * of_int 256)) = 170" by code_simp
  have le: "(192::rat) \<le> 288" by simp
  from aspect_preserving_size [OF hs vs pos box, of "(False, False)" False]
  obtain img w h where
    r: "rescaleSize (96, 96) (2, 3) DEFAULT_PREVIEW_SIZE = Inr (w, h)"
    and g: "numpy2grayscaleqimage (96, 96) (2, 3) DEFAULT_PREVIEW_SIZE (False, False) False = Inr img"
    and s: "img_size img = (if w \<le> 0 \<or> h \<le> 0 then (0, 0)
                            else if False then (h, w) else (w, h))"
    and h: "h = snd DEFAULT_PREVIEW_SIZE"
    and w: "w = py_int (b64_value (b64_value (192 / 288) * of_int h))"
    using le by blast
  have h256: "h = 256" using h by (simp add: DEFAULT_PREVIEW_SIZE_def)
  have w170: "w = 170" unfolding w h256 by (rule v)
  from r g s show ?thesis unfolding w170 h256 by simp
qed

text \<open>
  Counterexamples to C5 as stated. An 11 by 15 slice of spacing 1 in a 300 by 300 box:
  \<open>300 * 11 / 15\<close> is 220, but the float \<^verbatim>\<open>11./15.*300\<close> is just below 220 and the
  width is 219. A 1 by 300 slice of spacing 1 in the 256 by 256 box: the width is the
  integer part of 0.85, that is 0, and Qt gives the null image for an empty size.
\<close>

theorem aspect_truncates_below:
  "rescaleSize (11, 15) (1, 1) (300, 300) = Inr (219, 300)
   \<and> (300 :: rat) * 11 / 15 = 220
   \<and> rescaleSize (1, 300) (1, 1) DEFAULT_PREVIEW_SIZE = Inr (0, 256)
   \<and> pixmap_size (numpy2grayscaleqimage (1, 300) (1, 1) DEFAULT_PREVIEW_SIZE (False, False) False)
       = Some (0, 0)"
  by code_simp

text \<open>
  Claim C2, the round trip from a click back to the voxel drawn under it. The code does
  not meet it. For the slicing axis z the click is scaled with the two dimensions
  exchanged (\<^verbatim>\<open>nifti_shape[1]\<close> for x and \<^verbatim>\<open>nifti_shape[0]\<close> for y, lines 504 and 505),
  where the branches of the axes x and y use each index's own dimension. On a volume of
  10 by 20 by 5 voxels of spacing 1, with no mirror and no rotation, the xy preview is
  128 by 256 pixels; the pixel (57, 200) shows the slice element x = 4, y = 18 (the
  element x = 4, y = 15 of a 10 by 20 image, read through Qt's 12-byte scan lines), and
  the click on it moves the sliders to x = 8, y = 7 (z is left at 2).
\<close>

theorem click_z_non_square:
  "pixmap_size (update_preview (loaded (10, 20, 5) 3 (1, 1, 1, 1)) (10, 20, 5) ''z'') = Some (128, 256)
   \<and> shown_at (update_preview (loaded (10, 20, 5) 3 (1, 1, 1, 1)) (10, 20, 5) ''z'') (57, 200) = Some (4, 18)
   \<and> slider_values (preview_clicked (loaded (10, 20, 5) 3 (1, 1, 1, 1)) ''z'' (57, 200) (128, 256) (0, 0))
       = Some (8, 7, 2)"
  by code_simp

text \<open>
  Claim C4, the rotated previews. \<^verbatim>\<open>numpy2grayscaleqimage\<close> rotates before it mirrors (see
  its definition). The inverse of the axis y does not undo the rotation: on a 4 by 6
  slice (X = 4, Z = 6) drawn rotated, 256 by 170 pixels, the pixel (0, 0) shows the voxel
  x = 0, z = 5, and the click on it gives x = 0, z = 0, the same as the click on (0, 0)
  of the unrotated preview. The branch of the axis x on the same geometry and the same
  click gives y = 0, z = 5, the voxel drawn there.
\<close>

theorem click_rotated_axes:
  "pixmap_size (update_preview
      ((loaded (4, 4, 6) 3 (1, 1, 1, 1))\<lparr>ui := (ui (loaded (4, 4, 6) 3 (1, 1, 1, 1)))\<lparr>checkBox_preview_zx_rotate := True\<rparr>\<rparr>)
      (4, 4, 6) ''y'') = Some (256, 170)
   \<and> shown_at (update_preview
      ((loaded (4, 4, 6) 3 (1, 1, 1, 1))\<lparr>ui := (ui (loaded (4, 4, 6) 3 (1, 1, 1, 1)))\<lparr>checkBox_preview_zx_rotate := True\<rparr>\<rparr>)
      (4, 4, 6) ''y'') (0, 0) = Some (0, 5)
   \<and> slider_values (preview_clicked
      ((loaded (4, 4, 6) 3 (1, 1, 1, 1))\<lparr>ui := (ui (loaded (4, 4, 6) 3 (1, 1, 1, 1)))\<lparr>checkBox_preview_zx_rotate := True\<rparr>\<rparr>)
      ''y'' (0, 0) (256, 170) (0, 0)) = Some (0, 2, 0)
   \<and> slider_values (preview_clicked (loaded (4, 4, 6) 3 (1, 1, 1, 1)) ''y'' (0, 0) (170, 256) (0, 0))
       = Some (0, 2, 0)
   \<and> shown_at (update_preview
      ((loaded (4, 4, 6) 3 (1, 1, 1, 1))\<lparr>ui := (ui (loaded (4, 4, 6) 3 (1, 1, 1, 1)))\<lparr>checkBox_preview_yz_rotate := True\<rparr>\<rparr>)
      (4, 4, 6) ''x'') (0, 0) = Some (0, 5)
   \<and> slider_values (preview_clicked
      ((loaded (4, 4, 6) 3 (1, 1, 1, 1))\<lparr>ui := (ui (loaded (4, 4, 6) 3 (1, 1, 1, 1)))\<lparr>checkBox_preview_yz_rotate := True\<rparr>\<rparr>)
      ''x'' (0, 0) (256, 170) (0, 0)) = Some (2, 0, 5)"
  by code_simp

subsection \<open>The exclusion list\<close>

lemma str_list_1_2: "str_list [1, 2] = ''[1, 2]''"
  by code_simp

text \<open>
  Claim C8, replacing the exclusion set from the text field, on a loaded dataset with
  D = 10 directions. The code does not meet it. The text \<^verbatim>\<open>5\<close> is not a list:
  \<^verbatim>\<open>set(eval("5"))\<close> raises TypeError, which neither \<^verbatim>\<open>except\<close> clause of lines 374 to
  381 catches; the exception leaves the method, no validation error is reported and the
  field keeps the text. The handlers next to it do what the claim says: the text
  \<^verbatim>\<open>not a list\<close> (a SyntaxError) shows the message "Editing Error", leaves the (empty) set
  and shows it again; the text \<^verbatim>\<open>[1, 2, 999]\<close> gives the set {1, 2} with no message.
\<close>

theorem replace_uncaught_exception:
  "validate_text_excluded py_eval_examples (set_excluded ''5'' (loaded (4, 4, 4) 10 (1, 1, 1, 1)))
     = (Some TypeError, set_excluded ''5'' (loaded (4, 4, 4) 10 (1, 1, 1, 1)))
   \<and> messages (set_excluded ''5'' (loaded (4, 4, 4) 10 (1, 1, 1, 1))) = []
   \<and> validate_text_excluded py_eval_examples (set_excluded ''not a list'' (loaded (4, 4, 4) 10 (1, 1, 1, 1)))
     = (None, set_excluded ''[]''
                ((loaded (4, 4, 4) 10 (1, 1, 1, 1))\<lparr>messages := [Critical ''Editing Error'' ERR_MSG]\<rparr>))
   \<and> validate_text_excluded py_eval_examples (set_excluded ''[1, 2, 999]'' (loaded (4, 4, 4) 10 (1, 1, 1, 1)))
     = (None, set_excluded ''[1, 2]''
                ((loaded (4, 4, 4) 10 (1, 1, 1, 1))
                   \<lparr>dti_obj := Some \<lparr>EXCLUDED_DIRS = {1, 2}, SignalLength = 10, DIMS = (4, 4, 4)\<rparr>\<rparr>))"
proof -
  have k: "insert 1 (insert 2 {999 :: int}) - {999} = {1, 2}" by auto
  have r1: "validate_text_excluded py_eval_examples (set_excluded ''5'' (loaded (4, 4, 4) 10 (1, 1, 1, 1)))
     = (Some TypeError, set_excluded ''5'' (loaded (4, 4, 4) 10 (1, 1, 1, 1)))
   \<and> messages (set_excluded ''5'' (loaded (4, 4, 4) 10 (1, 1, 1, 1))) = []"
    by (simp add: validate_text_excluded_def set_excluded_def loaded_def py_eval_examples_def)
  have r2: "validate_text_excluded py_eval_examples (set_excluded ''not a list'' (loaded (4, 4, 4) 10 (1, 1, 1, 1)))
     = (None, set_excluded ''[]''
                ((loaded (4, 4, 4) 10 (1, 1, 1, 1))\<lparr>messages := [Critical ''Editing Error'' ERR_MSG]\<rparr>))"
    by (simp add: validate_text_excluded_def update_excluded_list_def set_excluded_def loaded_def
          py_eval_examples_def str_list_def Let_def)
  have r3: "validate_text_excluded py_eval_examples (set_excluded ''[1, 2, 999]'' (loaded (4, 4, 4) 10 (1, 1, 1, 1)))
     = (None, set_excluded ''[1, 2]''
                ((loaded (4, 4, 4) 10 (1, 1, 1, 1))
                   \<lparr>dti_obj := Some \<lparr>EXCLUDED_DIRS = {1, 2}, SignalLength = 10, DIMS = (4, 4, 4)\<rparr>\<rparr>))"
    by (simp add: validate_text_excluded_def update_excluded_list_def set_excluded_def loaded_def
          py_eval_examples_def Let_def k str_list_1_2)
  from r1 r2 r3 show ?thesis by blast
qed

subsection \<open>Saving\<close>

text \<open>
  Claim C9, a failing save. The code does not meet it: with the direction 2 excluded and
  a \<^verbatim>\<open>saveData\<close> that raises IOError, the exception is caught and the cursor restored,
  but building the error message raises AttributeError (\<^verbatim>\<open>self.parameter_box\<close> does not
  exist): the method ends with that exception and shows no message.
\<close>

theorem save_failure_raises:
  "save_data (\<lambda>d. Inl IOError)
     ((loaded (4, 4, 4) 5 (1, 1, 1, 1))\<lparr>dti_obj := Some \<lparr>EXCLUDED_DIRS = {2}, SignalLength = 5, DIMS = (4, 4, 4)\<rparr>\<rparr>)
   = (Some AttributeError,
      (loaded (4, 4, 4) 5 (1, 1, 1, 1))
        \<lparr>dti_obj := Some \<lparr>EXCLUDED_DIRS = {2}, SignalLength = 5, DIMS = (4, 4, 4)\<rparr>,
         save_calls := [\<lparr>EXCLUDED_DIRS = {2}, SignalLength = 5, DIMS = (4, 4, 4)\<rparr>]\<rparr>)"
  by (simp add: save_data_def loaded_def)

text \<open>
  Claim C10: when no dataset is loaded or the exclusion set is empty, \<^verbatim>\<open>save_data\<close> changes
  nothing (no call of \<^verbatim>\<open>saveData\<close>, no message, no cursor change, the same state) and
  raises nothing; and \<^verbatim>\<open>saveData\<close> is called exactly when a dataset is loaded and its
  exclusion set is not empty.
\<close>

theorem save_noop_unless_excluded:
  "(dti_obj g = None \<or> (\<exists>d. dti_obj g = Some d \<and> EXCLUDED_DIRS d = {})
      \<longrightarrow> save_data saveData g = (None, g))
   \<and> ((save_calls (snd (save_data saveData g)) \<noteq> save_calls g)
        = (\<exists>d. dti_obj g = Some d \<and> EXCLUDED_DIRS d \<noteq> {}))"
  by (auto simp: save_data_def Let_def split: option.splits sum.splits)

text \<open>
  Witness for C10: a freshly loaded dataset (nothing excluded) is left as it is; with the
  direction 2 excluded the save is attempted.
\<close>

theorem save_noop_witness:
  "save_data (\<lambda>d. Inl IOError) (loaded (4, 4, 4) 5 (1, 1, 1, 1)) = (None, loaded (4, 4, 4) 5 (1, 1, 1, 1))
   \<and> save_calls (snd (save_data (\<lambda>d. Inr [''dwi.exc.nii.gz''])
        ((loaded (4, 4, 4) 5 (1, 1, 1, 1))
           \<lparr>dti_obj := Some \<lparr>EXCLUDED_DIRS = {2}, SignalLength = 5, DIMS = (4, 4, 4)\<rparr>\<rparr>)))
      \<noteq> []"
proof -
  have "\<exists>d. dti_obj (loaded (4, 4, 4) 5 (1, 1, 1, 1)) = Some d \<and> EXCLUDED_DIRS d = {}"
    by (simp add: loaded_def)
  with save_noop_unless_excluded [of "loaded (4, 4, 4) 5 (1, 1, 1, 1)" "\<lambda>d. Inl IOError"]
  have a: "save_data (\<lambda>d. Inl IOError) (loaded (4, 4, 4) 5 (1, 1, 1, 1)) = (None, loaded (4, 4, 4) 5 (1, 1, 1, 1))"
    by blast
  let ?g = "(loaded (4, 4, 4) 5 (1, 1, 1, 1))
           \<lparr>dti_obj := Some \<lparr>EXCLUDED_DIRS = {2}, SignalLength = 5, DIMS = (4, 4, 4)\<rparr>\<rparr>"
  have "\<exists>d. dti_obj ?g = Some d \<and> EXCLUDED_DIRS d \<noteq> {}" by simp
  with save_noop_unless_excluded [of ?g "\<lambda>d. Inr [''dwi.exc.nii.gz'']"]
  have "save_calls (snd (save_data (\<lambda>d. Inr [''dwi.exc.nii.gz'']) ?g)) \<noteq> save_calls ?g" by blast
  then have b: "save_calls (snd (save_data (\<lambda>d. Inr [''dwi.exc.nii.gz'']) ?g)) \<noteq> []"
    by (simp add: loaded_def)
  from a b show ?thesis by blast
qed

end
